theory Spec2Isabelle
  imports Main
begin

section \<open>Strings\<close>

text \<open>
  JavaScript strings are modelled as \<^typ>\<open>string\<close>. The names the transformer handles are
  GraphQL names and Lambda function names, all ASCII. An optional argument
  (\<^verbatim>\<open>region?: string\<close>) is a \<^typ>\<open>string option\<close>, \<^term>\<open>None\<close> standing for
  \<^verbatim>\<open>undefined\<close>.
\<close>

text \<open>The test \<^verbatim>\<open>region ? a : b\<close>: \<^verbatim>\<open>undefined\<close> and the empty string are falsy.\<close>

fun truthy :: "string option \<Rightarrow> bool" where
  "truthy None = False"
| "truthy (Some s) = (s \<noteq> [])"

fun startsWith :: "string \<Rightarrow> string \<Rightarrow> bool" where
  "startsWith s [] = True"
| "startsWith [] (p # ps) = False"
| "startsWith (c # cs) (p # ps) = (c = p \<and> startsWith cs ps)"

text \<open>
  \<^verbatim>\<open>value.match(/(lit)/) !== null\<close> for a pattern that is one literal string: the literal
  occurs somewhere in the value.
\<close>

fun has_match :: "string \<Rightarrow> string \<Rightarrow> bool" where
  "has_match [] lit = (lit = [])"
| "has_match (c # cs) lit = (startsWith (c # cs) lit \<or> has_match cs lit)"

text \<open>
  \<^verbatim>\<open>value.replace(/(lit)/, rep)\<close> without the \<^verbatim>\<open>g\<close> flag: the leftmost occurrence of the
  literal is replaced, the rest of the value is kept.
\<close>

fun replace_first :: "string \<Rightarrow> string \<Rightarrow> string \<Rightarrow> string" where
  "replace_first lit rep [] = (if lit = [] then rep else [])"
| "replace_first lit rep (c # cs) =
     (if startsWith (c # cs) lit then rep @ drop (length lit) (c # cs)
      else c # replace_first lit rep cs)"

text \<open>A character of the ASCII range.\<close>

definition is_ascii :: "char \<Rightarrow> bool" where
  "is_ascii c = (of_char c < (128::nat))"

text \<open>
  \<^verbatim>\<open>String.prototype.toUpperCase\<close> on one character. The definition is exact on the
  ASCII range, where JavaScript maps the letters \<open>a\<close> to \<open>z\<close> to \<open>A\<close> to \<open>Z\<close> and
  changes nothing else; outside this range JavaScript changes further characters, and the
  definition does not follow it. The first characters that the entry point passes are the
  \<open>c\<close>, \<open>u\<close>, \<open>d\<close> and \<open>g\<close> of its four fixed operation names and the first
  character of the plural; a statement about an arbitrary field name carries the
  hypothesis \<open>is_ascii\<close> on its first character.
\<close>

definition toUpperCase_char :: "char \<Rightarrow> char" where
  "toUpperCase_char c =
     (case map_of (zip ''abcdefghijklmnopqrstuvwxyz'' ''ABCDEFGHIJKLMNOPQRSTUVWXYZ'') c of
        Some u \<Rightarrow> u
      | None \<Rightarrow> c)"

section \<open>Values built by the external packages\<close>

text \<open>
  Modelled from the spec: the deferred expressions of \<^verbatim>\<open>cloudform-types\<close>
  (\<^verbatim>\<open>Fn.Ref\<close>, \<^verbatim>\<open>Fn.GetAtt\<close>, \<^verbatim>\<open>Fn.Join\<close>, \<^verbatim>\<open>Fn.Sub\<close>, \<^verbatim>\<open>Fn.If\<close>) are
  not part of this repository. They are a tagged variant, the conditional with its
  condition and its two branches, together with the plain JSON values of the property
  objects. An object is an association list in the order of the source.
\<close>

datatype cfn_value =
    Str string
  | Arr "cfn_value list"
  | Obj "(string \<times> cfn_value) list"
  | Fn_Ref string
  | Fn_GetAtt string string
  | Fn_Join string "cfn_value list"
  | Fn_Sub string "(string \<times> cfn_value) list"
  | Fn_If string cfn_value cfn_value

text \<open>
  Modelled from the spec: the structured request and response transform descriptions of
  \<^verbatim>\<open>graphql-mapping-template\<close>, which the renderer turns into an opaque script.
\<close>

datatype vtl =
    VObj "(string \<times> vtl) list"
  | VStr string
  | VRef string
  | VRaw string
  | VQref string
  | VIff vtl vtl
  | VCompound "vtl list"

text \<open>
  The functions and constants imported from \<^verbatim>\<open>graphql-transformer-common\<close>
  (\<^verbatim>\<open>FunctionResourceIDs\<close>, \<^verbatim>\<open>plurality\<close>, \<^verbatim>\<open>ResourceConstants\<close>) and the renderer
  \<^verbatim>\<open>printBlock\<close> of \<^verbatim>\<open>graphql-mapping-template\<close> are not part of this repository.
  They are pure, and the transformer takes them as they are: here they are the fields of
  a parameter \<open>lib\<close>.
\<close>

record library =
  FunctionIAMRoleID :: "string \<Rightarrow> string option \<Rightarrow> string"
  FunctionDataSourceID :: "string \<Rightarrow> string option \<Rightarrow> string"
  FunctionAppSyncFunctionConfigurationID :: "string \<Rightarrow> string option \<Rightarrow> string"
  FunctionIAMRoleName :: "string \<Rightarrow> bool \<Rightarrow> string"
  plurality :: "string \<Rightarrow> bool \<Rightarrow> string"
  PARAMETERS_Env :: string
  CONDITIONS_HasEnvironmentParameter :: string
  RESOURCES_GraphQLAPILogicalID :: string
  printBlock :: "string \<Rightarrow> vtl \<Rightarrow> string"

section \<open>The address of the Lambda function\<close>

definition SIDECAR_DIRECTIVE_STACK :: string where
  "SIDECAR_DIRECTIVE_STACK = ''FunctionDirectiveStack''"

definition lambdaArnKey :: "string \<Rightarrow> string option \<Rightarrow> string" where
  "lambdaArnKey name region =
     (if truthy region
      then ''arn:aws:lambda:'' @ the region @ '':${AWS::AccountId}:function:'' @ name
      else ''arn:aws:lambda:${AWS::Region}:${AWS::AccountId}:function:'' @ name)"

definition referencesEnv :: "string \<Rightarrow> bool" where
  "referencesEnv v = has_match v ''${env}''"

definition removeEnvReference :: "string \<Rightarrow> string" where
  "removeEnvReference v = replace_first ''-${env}'' [] v"

definition lambdaArnResource :: "library \<Rightarrow> string \<Rightarrow> string option \<Rightarrow> cfn_value" where
  "lambdaArnResource lib name region =
     (let substitutions =
            (if referencesEnv name then [(''env'', Fn_Ref (PARAMETERS_Env lib))] else [])
      in Fn_If (CONDITIONS_HasEnvironmentParameter lib)
           (Fn_Sub (lambdaArnKey name region) substitutions)
           (Fn_Sub (lambdaArnKey (removeEnvReference name) region) []))"

section \<open>The transformer context\<close>

datatype resource_type =
  IAM_Role | AppSync_DataSource | AppSync_FunctionConfiguration | AppSync_Resolver

text \<open>
  \<^verbatim>\<open>dependsOn\<close> is called with one key for the data source and the function
  configuration, and with an array of keys for a resolver.
\<close>

datatype depends_on = NoDependsOn | DependsOnKey string | DependsOnKeys "string list"

fun dependency_keys :: "depends_on \<Rightarrow> string list" where
  "dependency_keys NoDependsOn = []"
| "dependency_keys (DependsOnKey k) = [k]"
| "dependency_keys (DependsOnKeys ks) = ks"

record resource =
  Type :: resource_type
  Properties :: "(string \<times> cfn_value) list"
  DependsOn :: depends_on

text \<open>
  Modelled from the spec: \<^verbatim>\<open>TransformerContext\<close>, a class of
  \<^verbatim>\<open>graphql-transformer-core\<close>, is not part of this repository. The registry is a
  mapping from keys to resource descriptors with \<^verbatim>\<open>getResource(key) -> descriptor | absent\<close>,
  an overwriting \<^verbatim>\<open>setResource(key, descriptor)\<close>, and
  \<^verbatim>\<open>mapResourceToStack(groupTag, key)\<close> writing the stack membership table, a mapping
  from keys to group tags. The field \<open>calls\<close> is the history of the two writing methods,
  in the order of the calls; the program never reads it.
\<close>

datatype ctx_call = SetResource string resource | MapResourceToStack string string

record TransformerContext =
  resources :: "string \<rightharpoonup> resource"
  stackMapping :: "string \<rightharpoonup> string"
  calls :: "ctx_call list"

definition getResource :: "TransformerContext \<Rightarrow> string \<Rightarrow> resource option" where
  "getResource ctx key = resources ctx key"

definition setResource :: "string \<Rightarrow> resource \<Rightarrow> TransformerContext \<Rightarrow> TransformerContext" where
  "setResource key r ctx =
     ctx\<lparr>resources := (resources ctx)(key \<mapsto> r), calls := calls ctx @ [SetResource key r]\<rparr>"

definition mapResourceToStack :: "string \<Rightarrow> string \<Rightarrow> TransformerContext \<Rightarrow> TransformerContext" where
  "mapResourceToStack stack key ctx =
     ctx\<lparr>stackMapping := (stackMapping ctx)(key \<mapsto> stack),
         calls := calls ctx @ [MapResourceToStack stack key]\<rparr>"

section \<open>The inputs of the directive handler\<close>

text \<open>
  Modelled from the spec: the nodes of the \<^verbatim>\<open>graphql\<close> package and
  \<^verbatim>\<open>getDirectiveArguments(directive) -> { name: string, region: string? }\<close> of
  \<^verbatim>\<open>graphql-transformer-core\<close> are not part of this repository. Of an
  \<^verbatim>\<open>ObjectTypeDefinitionNode\<close> the transformer reads \<^verbatim>\<open>name.value\<close> and, of every
  node of \<^verbatim>\<open>directives\<close> (which may be \<^verbatim>\<open>undefined\<close>), its \<^verbatim>\<open>name.value\<close>: a
  directive of the type is represented by that name. Of the \<^verbatim>\<open>DirectiveNode\<close> it reads
  the two arguments of the declaration \<^verbatim>\<open>@sidecar(name: String!, region: String)\<close>.
\<close>

record definition_node =
  name_value :: string
  directives :: "string list option"

record directive_node =
  arg_name :: string
  arg_region :: "string option"

definition getDirectiveArguments :: "directive_node \<Rightarrow> string \<times> string option" where
  "getDirectiveArguments directive = (arg_name directive, arg_region directive)"

datatype error = InvalidDirectiveError string | TypeError

section \<open>The resource descriptors\<close>

definition role_resource :: "library \<Rightarrow> string \<Rightarrow> string option \<Rightarrow> resource" where
  "role_resource lib name region =
     \<lparr>Type = IAM_Role,
      Properties =
        [(''RoleName'',
          Fn_If (CONDITIONS_HasEnvironmentParameter lib)
            (Fn_Join ''-''
               [Str (FunctionIAMRoleName lib name True),
                Fn_GetAtt (RESOURCES_GraphQLAPILogicalID lib) ''ApiId'',
                Fn_Ref (PARAMETERS_Env lib)])
            (Fn_Join ''-''
               [Str (FunctionIAMRoleName lib name False),
                Fn_GetAtt (RESOURCES_GraphQLAPILogicalID lib) ''ApiId''])),
         (''AssumeRolePolicyDocument'',
          Obj [(''Version'', Str ''2012-10-17''),
               (''Statement'',
                Arr [Obj [(''Effect'', Str ''Allow''),
                          (''Principal'', Obj [(''Service'', Str ''appsync.amazonaws.com'')]),
                          (''Action'', Str ''sts:AssumeRole'')]])]),
         (''Policies'',
          Arr [Obj [(''PolicyName'', Str ''InvokeLambdaFunction''),
                    (''PolicyDocument'',
                     Obj [(''Version'', Str ''2012-10-17''),
                          (''Statement'',
                           Arr [Obj [(''Effect'', Str ''Allow''),
                                     (''Action'', Arr [Str ''lambda:InvokeFunction'']),
                                     (''Resource'', lambdaArnResource lib name region)]])])]])],
      DependsOn = NoDependsOn\<rparr>"

definition data_source_resource ::
  "library \<Rightarrow> string \<Rightarrow> string option \<Rightarrow> string \<Rightarrow> string \<Rightarrow> resource" where
  "data_source_resource lib name region iamRoleId sidecarLambdaDataSourceName =
     \<lparr>Type = AppSync_DataSource,
      Properties =
        [(''ApiId'', Fn_GetAtt (RESOURCES_GraphQLAPILogicalID lib) ''ApiId''),
         (''Name'', Str sidecarLambdaDataSourceName),
         (''Type'', Str ''AWS_LAMBDA''),
         (''ServiceRoleArn'', Fn_GetAtt iamRoleId ''Arn''),
         (''LambdaConfig'', Obj [(''LambdaFunctionArn'', lambdaArnResource lib name region)])],
      DependsOn = DependsOnKey iamRoleId\<rparr>"

definition function_configuration_resource :: "library \<Rightarrow> string \<Rightarrow> string \<Rightarrow> resource" where
  \<open>function_configuration_resource lib sidecarLambdaDataSourceName sidecarLambdaFunctionId =
     \<lparr>Type = AppSync_FunctionConfiguration,
      Properties =
        [(''ApiId'', Fn_GetAtt (RESOURCES_GraphQLAPILogicalID lib) ''ApiId''),
         (''Name'', Str sidecarLambdaFunctionId),
         (''DataSourceName'', Str sidecarLambdaDataSourceName),
         (''FunctionVersion'', Str ''2018-05-29''),
         (''RequestMappingTemplate'',
          Str (printBlock lib
                 (''Invoke AWS Lambda data source: '' @ sidecarLambdaDataSourceName)
                 (VObj [(''version'', VStr ''2018-05-29''),
                        (''operation'', VStr ''Invoke''),
                        (''payload'',
                         VObj [(''typeName'', VStr ''$ctx.stash.get("typeName")''),
                               (''fieldName'', VStr ''$ctx.stash.get("fieldName")''),
                               (''arguments'', VRef ''util.toJson($ctx.arguments)''),
                               (''identity'', VRef ''util.toJson($ctx.identity)''),
                               (''source'', VRef ''util.toJson($ctx.source)''),
                               (''request'', VRef ''util.toJson($ctx.request)''),
                               (''prev'', VRef ''util.toJson($ctx.prev)'')])]))),
         (''ResponseMappingTemplate'',
          Str (printBlock lib ''Handle error or return result''
                 (VCompound
                    [VIff (VRef ''ctx.error'')
                       (VRaw ''$util.error($ctx.error.message, $ctx.error.type)''),
                     VRaw ''$util.toJson($ctx.result)''])))],
      DependsOn = DependsOnKey sidecarLambdaDataSourceName\<rparr>\<close>

definition resolver_resource ::
  "library \<Rightarrow> string \<Rightarrow> string \<Rightarrow> string \<Rightarrow> string \<Rightarrow> resource" where
  \<open>resolver_resource lib sidecarLambdaFunctionId sidecarLambdaDataSourceName typeName fieldName =
     \<lparr>Type = AppSync_Resolver,
      Properties =
        [(''ApiId'', Fn_GetAtt (RESOURCES_GraphQLAPILogicalID lib) ''ApiId''),
         (''TypeName'', Str typeName),
         (''FieldName'', Str fieldName),
         (''Kind'', Str ''UNIT''),
         (''DataSourceName'', Str sidecarLambdaDataSourceName),
         (''RequestMappingTemplate'',
          Str (printBlock lib ''Stash resolver specific context.''
                 (VCompound
                    [VQref (''$ctx.stash.put("typeName", "'' @ typeName @ ''")''),
                     VQref (''$ctx.stash.put("fieldName", "'' @ fieldName @ ''")''),
                     VObj []]))),
         (''ResponseMappingTemplate'', Str ''$util.toJson($ctx.result)'')],
      DependsOn = DependsOnKeys [sidecarLambdaFunctionId]\<rparr>\<close>

section \<open>The transformer\<close>

definition validateObject :: "definition_node \<Rightarrow> error option" where
  "validateObject definition =
     (case directives definition of
        None \<Rightarrow> Some (InvalidDirectiveError ''Type does not have any directives.'')
      | Some direcectives \<Rightarrow>
          (case find (\<lambda>dir. dir = ''model'') direcectives of
             None \<Rightarrow>
               Some (InvalidDirectiveError
                 ''Types annotated with @sidecar must also be annotated with @model.'')
           | Some modelDirective \<Rightarrow> None))"

text \<open>
  The result is the pair \<^verbatim>\<open>{ sidecarLambdaFunctionId, sidecarLambdaDataSourceName }\<close> and
  the context as the call leaves it.
\<close>

definition createLambdaFunctionResources ::
  "library \<Rightarrow> directive_node \<Rightarrow> TransformerContext \<Rightarrow> (string \<times> string) \<times> TransformerContext" where
  "createLambdaFunctionResources lib directive ctx =
     (let (name, region) = getDirectiveArguments directive;
          iamRoleId = FunctionIAMRoleID lib name region;
          ctx1 =
            (if getResource ctx iamRoleId = None
             then mapResourceToStack SIDECAR_DIRECTIVE_STACK iamRoleId
                    (setResource iamRoleId (role_resource lib name region) ctx)
             else ctx);
          sidecarLambdaDataSourceName = FunctionDataSourceID lib name region;
          ctx2 =
            (if getResource ctx1 sidecarLambdaDataSourceName = None
             then mapResourceToStack SIDECAR_DIRECTIVE_STACK sidecarLambdaDataSourceName
                    (setResource sidecarLambdaDataSourceName
                       (data_source_resource lib name region iamRoleId sidecarLambdaDataSourceName)
                       ctx1)
             else ctx1);
          sidecarLambdaFunctionId = FunctionAppSyncFunctionConfigurationID lib name region;
          ctx3 =
            (if getResource ctx2 sidecarLambdaFunctionId = None
             then mapResourceToStack SIDECAR_DIRECTIVE_STACK sidecarLambdaFunctionId
                    (setResource sidecarLambdaFunctionId
                       (function_configuration_resource lib sidecarLambdaDataSourceName
                          sidecarLambdaFunctionId)
                       ctx2)
             else ctx2)
      in ((sidecarLambdaFunctionId, sidecarLambdaDataSourceName), ctx3))"

definition sidecarResolverId :: "string \<Rightarrow> char \<Rightarrow> string \<Rightarrow> string" where
  "sidecarResolverId typeName c rest =
     typeName @ (toUpperCase_char c # rest) @ ''SidecarResolver''"

text \<open>
  \<^verbatim>\<open>fieldName[0]\<close> is \<^verbatim>\<open>undefined\<close> for the empty string, and calling
  \<^verbatim>\<open>toUpperCase\<close> on it throws a \<^verbatim>\<open>TypeError\<close> before the context is touched. The
  result is the exception, if any, and the context as the call leaves it.
\<close>

fun createSidecarResolver ::
  "library \<Rightarrow> TransformerContext \<Rightarrow> string \<Rightarrow> string \<Rightarrow> string \<Rightarrow> string
     \<Rightarrow> error option \<times> TransformerContext" where
  "createSidecarResolver lib ctx sidecarLambdaFunctionId sidecarLambdaDataSourceName typeName [] =
     (Some TypeError, ctx)"
| "createSidecarResolver lib ctx sidecarLambdaFunctionId sidecarLambdaDataSourceName typeName
     (c # rest) =
     (None,
      mapResourceToStack SIDECAR_DIRECTIVE_STACK (sidecarResolverId typeName c rest)
        (setResource (sidecarResolverId typeName c rest)
           (resolver_resource lib sidecarLambdaFunctionId sidecarLambdaDataSourceName
              typeName (c # rest))
           ctx))"

text \<open>Sequencing of statements: an exception ends the run.\<close>

definition and_then ::
  "error option \<times> TransformerContext \<Rightarrow> (TransformerContext \<Rightarrow> error option \<times> TransformerContext)
     \<Rightarrow> error option \<times> TransformerContext" where
  "and_then r f = (case r of (Some e, ctx) \<Rightarrow> (Some e, ctx) | (None, ctx) \<Rightarrow> f ctx)"

definition object ::
  "library \<Rightarrow> definition_node \<Rightarrow> directive_node \<Rightarrow> TransformerContext
     \<Rightarrow> error option \<times> TransformerContext" where
  "object lib definition directive ctx =
     (case validateObject definition of
        Some e \<Rightarrow> (Some e, ctx)
      | None \<Rightarrow>
          (case createLambdaFunctionResources lib directive ctx of
             ((sidecarLambdaFunctionId, sidecarLambdaDataSourceName), ctx1) \<Rightarrow>
               and_then
                 (and_then
                    (and_then
                       (and_then
                          (createSidecarResolver lib ctx1 sidecarLambdaFunctionId
                             sidecarLambdaDataSourceName ''Mutation''
                             (''create'' @ name_value definition))
                          (\<lambda>c. createSidecarResolver lib c sidecarLambdaFunctionId
                             sidecarLambdaDataSourceName ''Mutation''
                             (''update'' @ name_value definition)))
                       (\<lambda>c. createSidecarResolver lib c sidecarLambdaFunctionId
                          sidecarLambdaDataSourceName ''Mutation''
                          (''delete'' @ name_value definition)))
                    (\<lambda>c. createSidecarResolver lib c sidecarLambdaFunctionId
                       sidecarLambdaDataSourceName ''Query''
                       (''get'' @ name_value definition)))
                 (\<lambda>c. createSidecarResolver lib c sidecarLambdaFunctionId
                    sidecarLambdaDataSourceName ''Query''
                    (plurality lib (''list'' @ name_value definition) True))))"

section \<open>Notions used in the statements\<close>

text \<open>
  A history of context calls in which every \<open>setResource\<close> is followed at once by the
  \<open>mapResourceToStack\<close> of the same key to the constant stack, and in which no other
  call occurs.
\<close>

fun tagged_pairs :: "ctx_call list \<Rightarrow> bool" where
  "tagged_pairs [] = True"
| "tagged_pairs (SetResource k r # MapResourceToStack s k' # cs) =
     (s = SIDECAR_DIRECTIVE_STACK \<and> k' = k \<and> tagged_pairs cs)"
| "tagged_pairs (c # cs) = False"

text \<open>
  The second context continues the history of the first, and what it adds is such a
  sequence of tagged insertions.
\<close>

definition tagged_extension :: "TransformerContext \<Rightarrow> TransformerContext \<Rightarrow> bool" where
  "tagged_extension before after =
     (take (length (calls before)) (calls after) = calls before \<and>
      tagged_pairs (drop (length (calls before)) (calls after)))"

text \<open>
  One guarded insertion of the Resource Graph Builder: look the key up, and insert and tag
  the descriptor only when the registry has no entry under the key.
\<close>

definition insert_if_absent :: "string \<Rightarrow> resource \<Rightarrow> TransformerContext \<Rightarrow> TransformerContext" where
  "insert_if_absent k r ctx =
     (if getResource ctx k = None
      then mapResourceToStack SIDECAR_DIRECTIVE_STACK k (setResource k r ctx)
      else ctx)"

text \<open>The keys under which a history calls \<open>setResource\<close>, and the pairs it writes.\<close>

fun set_keys :: "ctx_call list \<Rightarrow> string list" where
  "set_keys [] = []"
| "set_keys (SetResource k r # cs) = k # set_keys cs"
| "set_keys (MapResourceToStack s k # cs) = set_keys cs"

fun set_entries :: "ctx_call list \<Rightarrow> (string \<times> resource) list" where
  "set_entries [] = []"
| "set_entries (SetResource k r # cs) = (k, r) # set_entries cs"
| "set_entries (MapResourceToStack s k # cs) = set_entries cs"

text \<open>The calls a run adds to the history it started with.\<close>

definition new_calls :: "TransformerContext \<Rightarrow> TransformerContext \<Rightarrow> ctx_call list" where
  "new_calls before after = drop (length (calls before)) (calls after)"

text \<open>
  The Resolver Attacher invoked on a list of operations in order, every invocation with the
  same two keys; the first component counts the invocations made.
\<close>

fun attach_resolvers ::
  "library \<Rightarrow> string \<Rightarrow> string \<Rightarrow> (string \<times> string) list \<Rightarrow> TransformerContext
     \<Rightarrow> nat \<times> error option \<times> TransformerContext" where
  "attach_resolvers lib fnId dsName [] ctx = (0, None, ctx)"
| "attach_resolvers lib fnId dsName ((typeName, fieldName) # ops) ctx =
     (case createSidecarResolver lib ctx fnId dsName typeName fieldName of
        (Some e, ctx') \<Rightarrow> (1, Some e, ctx')
      | (None, ctx') \<Rightarrow>
          (case attach_resolvers lib fnId dsName ops ctx' of
             (n, r) \<Rightarrow> (Suc n, r)))"

text \<open>The calls one successful invocation of the Resolver Attacher makes.\<close>

definition resolver_calls :: "library \<Rightarrow> string \<Rightarrow> string \<Rightarrow> string \<times> string \<Rightarrow> ctx_call list" where
  "resolver_calls lib fnId dsName op =
     (case op of (typeName, fieldName) \<Rightarrow>
        [SetResource (typeName @ (toUpperCase_char (hd fieldName) # tl fieldName) @ ''SidecarResolver'')
           (resolver_resource lib fnId dsName typeName fieldName),
         MapResourceToStack ''FunctionDirectiveStack''
           (typeName @ (toUpperCase_char (hd fieldName) # tl fieldName) @ ''SidecarResolver'')])"

text \<open>
  The position of a key in the deployment order of one target: its role first, then its
  data source, then its function configuration, then everything else.
\<close>

definition rank :: "library \<Rightarrow> directive_node \<Rightarrow> string \<Rightarrow> nat" where
  "rank lib directive k =
     (if k = FunctionIAMRoleID lib (arg_name directive) (arg_region directive) then 0
      else if k = FunctionDataSourceID lib (arg_name directive) (arg_region directive) then 1
      else if k = FunctionAppSyncFunctionConfigurationID lib (arg_name directive)
                    (arg_region directive) then 2
      else 3)"

text \<open>The string ends with the suffix.\<close>

definition endsWith :: "string \<Rightarrow> string \<Rightarrow> bool" where
  "endsWith s suffix = startsWith (rev s) (rev suffix)"

text \<open>The deployment order of the four kinds of resource.\<close>

fun type_rank :: "resource_type \<Rightarrow> nat" where
  "type_rank IAM_Role = 0"
| "type_rank AppSync_DataSource = 1"
| "type_rank AppSync_FunctionConfiguration = 2"
| "type_rank AppSync_Resolver = 3"

text \<open>
  The dependency edges of the spec, read on one registry entry: a role depends on nothing,
  the data source on the role key, the function configuration on the data-source key, a
  resolver on the function-configuration key. The role, the data source and the function
  configuration lie under their keys, a resolver under a key ending in
  \<open>SidecarResolver\<close>.
\<close>

definition recorded_as_specified :: "library \<Rightarrow> directive_node \<Rightarrow> string \<times> resource \<Rightarrow> bool" where
  "recorded_as_specified lib directive e =
     (case e of (k, r) \<Rightarrow>
        (case Type r of
           IAM_Role \<Rightarrow>
             k = FunctionIAMRoleID lib (arg_name directive) (arg_region directive) \<and>
             dependency_keys (DependsOn r) = []
         | AppSync_DataSource \<Rightarrow>
             k = FunctionDataSourceID lib (arg_name directive) (arg_region directive) \<and>
             dependency_keys (DependsOn r) =
               [FunctionIAMRoleID lib (arg_name directive) (arg_region directive)]
         | AppSync_FunctionConfiguration \<Rightarrow>
             k = FunctionAppSyncFunctionConfigurationID lib (arg_name directive)
                   (arg_region directive) \<and>
             dependency_keys (DependsOn r) =
               [FunctionDataSourceID lib (arg_name directive) (arg_region directive)]
         | AppSync_Resolver \<Rightarrow>
             endsWith k ''SidecarResolver'' \<and>
             dependency_keys (DependsOn r) =
               [FunctionAppSyncFunctionConfigurationID lib (arg_name directive)
                  (arg_region directive)]))"

text \<open>
  The dependency edges a history records: from the key of every inserted descriptor to
  every key the descriptor depends on.
\<close>

definition edge_list :: "ctx_call list \<Rightarrow> (string \<times> string) list" where
  "edge_list cs =
     concat (map (\<lambda>(k, r). map (\<lambda>d. (k, d)) (dependency_keys (DependsOn r))) (set_entries cs))"

text \<open>
  The second context continues the history of the first, and every entry it inserts
  satisfies \<open>P\<close>.
\<close>

definition adds_only ::
  "(string \<times> resource \<Rightarrow> bool) \<Rightarrow> TransformerContext \<Rightarrow> TransformerContext \<Rightarrow> bool" where
  "adds_only P before after =
     (take (length (calls before)) (calls after) = calls before \<and>
      list_all P (set_entries (new_calls before after)))"


text \<open>
  An instance of the external library for the examples: keys in the style of the naming
  convention, and a renderer that keeps the comment only.
\<close>

definition sample_library :: library where
  "sample_library =
     \<lparr>FunctionIAMRoleID = (\<lambda>name region. name @ (case region of None \<Rightarrow> [] | Some r \<Rightarrow> r) @ ''LambdaDataSourceRole''),
      FunctionDataSourceID = (\<lambda>name region. name @ (case region of None \<Rightarrow> [] | Some r \<Rightarrow> r) @ ''LambdaDataSource''),
      FunctionAppSyncFunctionConfigurationID =
        (\<lambda>name region. ''Invoke'' @ name @ (case region of None \<Rightarrow> [] | Some r \<Rightarrow> r) @ ''LambdaDataSource''),
      FunctionIAMRoleName = (\<lambda>name withEnv. name),
      plurality = (\<lambda>val improve. val @ ''s''),
      PARAMETERS_Env = ''env'',
      CONDITIONS_HasEnvironmentParameter = ''HasEnvironmentParameter'',
      RESOURCES_GraphQLAPILogicalID = ''GraphQLAPI'',
      printBlock = (\<lambda>name expr. ''## [Start] '' @ name)\<rparr>"

definition empty_context :: TransformerContext where
  "empty_context = \<lparr>resources = Map.empty, stackMapping = Map.empty, calls = []\<rparr>"

definition widget :: definition_node where
  "widget = \<lparr>name_value = ''Widget'', directives = Some [''model'', ''sidecar'']\<rparr>"

definition myFn :: directive_node where
  "myFn = \<lparr>arg_name = ''myFn'', arg_region = None\<rparr>"

definition gadget :: definition_node where
  "gadget = \<lparr>name_value = ''Gadget'', directives = Some [''sidecar'', ''key'']\<rparr>"

text \<open>A context in which the key of a resolver is already taken, by a role.\<close>

definition occupied_context :: TransformerContext where
  "occupied_context =
     setResource ''QueryGetWidgetSidecarResolver'' (role_resource sample_library ''other'' None)
       empty_context"

section \<open>Basic facts\<close>

lemma find_model_None:
  "''model'' \<notin> set ds \<Longrightarrow> find (\<lambda>dir. dir = ''model'') ds = None"
  by (simp add: find_None_iff)

lemma find_model_Some:
  "''model'' \<in> set ds \<Longrightarrow> \<exists>m. find (\<lambda>dir. dir = ''model'') ds = Some m"
  by (cases "find (\<lambda>dir. dir = ''model'') ds") (auto simp: find_None_iff)

lemma validateObject_no_model:
  "''model'' \<notin> set (case directives definition of None \<Rightarrow> [] | Some ds \<Rightarrow> ds) \<Longrightarrow>
     \<exists>msg. validateObject definition = Some (InvalidDirectiveError msg)"
  by (cases "directives definition") (simp_all add: validateObject_def find_model_None)

lemma validateObject_model:
  "directives definition = Some ds \<Longrightarrow> ''model'' \<in> set ds \<Longrightarrow> validateObject definition = None"
  using find_model_Some [of ds] by (auto simp: validateObject_def)

lemma startsWith_iff: "startsWith s p \<longleftrightarrow> (\<exists>t. s = p @ t)"
  by (induction s p rule: startsWith.induct) auto

lemma has_match_iff: "has_match s lit \<longleftrightarrow> (\<exists>pre post. s = pre @ lit @ post)"
proof (induction s)
  case Nil
  then show ?case by simp
next
  case (Cons c cs)
  show ?case
  proof
    assume "has_match (c # cs) lit"
    then consider "startsWith (c # cs) lit" | "has_match cs lit" by auto
    then show "\<exists>pre post. c # cs = pre @ lit @ post"
    proof cases
      case 1
      then obtain t where "c # cs = lit @ t" using startsWith_iff by blast
      then have "c # cs = [] @ lit @ t" by simp
      then show ?thesis by blast
    next
      case 2
      then obtain pre post where "cs = pre @ lit @ post" using Cons.IH by blast
      then have "c # cs = (c # pre) @ lit @ post" by simp
      then show ?thesis by blast
    qed
  next
    assume "\<exists>pre post. c # cs = pre @ lit @ post"
    then obtain pre post where eq: "c # cs = pre @ lit @ post" by blast
    show "has_match (c # cs) lit"
    proof (cases pre)
      case Nil
      with eq have "startsWith (c # cs) lit" using startsWith_iff by auto
      then show ?thesis by simp
    next
      case (Cons a pre')
      with eq have "cs = pre' @ lit @ post" by simp
      then have "has_match cs lit" using Cons.IH by blast
      then show ?thesis by simp
    qed
  qed
qed

lemma replace_first_no_match: "\<not> has_match s lit \<Longrightarrow> replace_first lit rep s = s"
  by (induction s) auto

lemma has_match_hyphen_env: "has_match s ''-${env}'' \<Longrightarrow> has_match s ''${env}''"
proof -
  assume "has_match s ''-${env}''"
  then obtain pre post where "s = pre @ ''-${env}'' @ post" using has_match_iff by blast
  then have "s = (pre @ ''-'') @ ''${env}'' @ post" by simp
  then show ?thesis using has_match_iff by blast
qed

lemma removeEnvReference_no_env: "\<not> has_match name ''${env}'' \<Longrightarrow> removeEnvReference name = name"
  unfolding removeEnvReference_def
  using has_match_hyphen_env replace_first_no_match by blast

lemma no_straddle:
  "startsWith (pre @ ''-${env}'' @ post) ''-${env}'' \<Longrightarrow> pre = [] \<or> startsWith pre ''-${env}''"
  unfolding startsWith_iff
  by (auto simp: append_eq_append_conv2 append_eq_Cons_conv Cons_eq_append_conv)

lemma removeEnvReference_first:
  "\<not> has_match pre ''-${env}'' \<Longrightarrow> removeEnvReference (pre @ ''-${env}'' @ post) = pre @ post"
proof (induction pre)
  case Nil
  then show ?case by (simp add: removeEnvReference_def)
next
  case (Cons a pre)
  from Cons.prems have ns: "\<not> startsWith (a # pre) ''-${env}''" and nh: "\<not> has_match pre ''-${env}''"
    by (simp_all del: startsWith.simps)
  have "\<not> startsWith ((a # pre) @ ''-${env}'' @ post) ''-${env}''"
    using no_straddle [of "a # pre" post] ns by blast
  then have "removeEnvReference ((a # pre) @ ''-${env}'' @ post)
      = a # removeEnvReference (pre @ ''-${env}'' @ post)"
    by (simp add: removeEnvReference_def del: startsWith.simps)
  then show ?case using Cons.IH [OF nh] by simp
qed

lemma removeEnvReference_env_head:
  "removeEnvReference (''${env}'' @ post) = ''${env}'' @ removeEnvReference post"
  by (simp add: removeEnvReference_def)

lemma has_match_Cons: "has_match cs lit \<Longrightarrow> has_match (c # cs) lit"
  by simp

lemma env_after_hyphen_env:
  assumes "startsWith (CHR ''-'' # pre' @ ''${env}'' @ post) ''-${env}''" and "pre' \<noteq> []"
  shows "has_match (drop 6 (pre' @ ''${env}'' @ post)) ''${env}''"
proof -
  from assms(1) obtain t where "pre' @ ''${env}'' @ post = ''${env}'' @ t"
    unfolding startsWith_iff by auto
  then have "\<exists>us. pre' = ''${env}'' @ us"
    using assms(2)
    by (auto simp: append_eq_append_conv2 append_eq_Cons_conv Cons_eq_append_conv)
  then obtain us where "pre' = ''${env}'' @ us" by blast
  then have "drop 6 (pre' @ ''${env}'' @ post) = us @ ''${env}'' @ post" by simp
  then show ?thesis using has_match_iff by blast
qed

lemma removeEnvReference_keeps_env:
  "pre = [] \<or> last pre \<noteq> CHR ''-'' \<Longrightarrow>
     has_match (removeEnvReference (pre @ ''${env}'' @ post)) ''${env}''"
proof (induction pre)
  case Nil
  show ?case
    using removeEnvReference_env_head [of post] by simp
next
  case (Cons a pre')
  let ?name = "(a # pre') @ ''${env}'' @ post"
  have pre': "pre' = [] \<or> last pre' \<noteq> CHR ''-''"
    using Cons.prems by (cases pre') auto
  show ?case
  proof (cases "startsWith ?name ''-${env}''")
    case True
    then have a: "a = CHR ''-''" by simp
    with Cons.prems have ne: "pre' \<noteq> []" by auto
    have "removeEnvReference ?name = drop 6 (pre' @ ''${env}'' @ post)"
      using True by (simp add: removeEnvReference_def eval_nat_numeral)
    then show ?thesis
      using env_after_hyphen_env [of pre' post] True a ne by simp
  next
    case False
    then have "removeEnvReference ?name = a # removeEnvReference (pre' @ ''${env}'' @ post)"
      by (simp add: removeEnvReference_def del: startsWith.simps)
    then show ?thesis
      using Cons.IH [OF pre'] has_match_Cons by simp
  qed
qed

lemma lambdaArnKey_suffix: "\<exists>p. lambdaArnKey name region = p @ name"
  by (simp add: lambdaArnKey_def)

lemma calls_setResource: "calls (setResource k r ctx) = calls ctx @ [SetResource k r]"
  by (simp add: setResource_def)

lemma calls_mapResourceToStack:
  "calls (mapResourceToStack s k ctx) = calls ctx @ [MapResourceToStack s k]"
  by (simp add: mapResourceToStack_def)

lemma resources_setResource: "resources (setResource k r ctx) = (resources ctx)(k \<mapsto> r)"
  by (simp add: setResource_def)

lemma resources_mapResourceToStack: "resources (mapResourceToStack s k ctx) = resources ctx"
  by (simp add: mapResourceToStack_def)

lemma tagged_pairs_append: "tagged_pairs xs \<Longrightarrow> tagged_pairs ys \<Longrightarrow> tagged_pairs (xs @ ys)"
  by (induction xs rule: tagged_pairs.induct) auto

lemma tagged_extensionI:
  "calls c' = calls c @ new \<Longrightarrow> tagged_pairs new \<Longrightarrow> tagged_extension c c'"
  by (simp add: tagged_extension_def)

lemma tagged_extensionD:
  "tagged_extension c c' \<Longrightarrow> \<exists>new. calls c' = calls c @ new \<and> tagged_pairs new"
  unfolding tagged_extension_def
  by (metis append_take_drop_id)

lemma tagged_extension_refl: "tagged_extension c c"
  by (rule tagged_extensionI [where new = "[]"]) simp_all

lemma tagged_extension_trans:
  "tagged_extension a b \<Longrightarrow> tagged_extension b c \<Longrightarrow> tagged_extension a c"
proof -
  assume "tagged_extension a b" "tagged_extension b c"
  then obtain n1 n2 where 1: "calls b = calls a @ n1" "tagged_pairs n1"
    and 2: "calls c = calls b @ n2" "tagged_pairs n2"
    using tagged_extensionD by blast
  show ?thesis
    by (rule tagged_extensionI [where new = "n1 @ n2"]) (simp_all add: 1 2 tagged_pairs_append)
qed

lemma tagged_extension_insert:
  "tagged_extension c (mapResourceToStack SIDECAR_DIRECTIVE_STACK k (setResource k r c))"
  by (rule tagged_extensionI
        [where new = "[SetResource k r, MapResourceToStack SIDECAR_DIRECTIVE_STACK k]"])
     (simp_all add: calls_setResource calls_mapResourceToStack)

lemma createSidecarResolver_tagged:
  "tagged_extension ctx (snd (createSidecarResolver lib ctx fnId dsName typeName fieldName))"
  by (cases fieldName) (simp_all add: tagged_extension_refl tagged_extension_insert)

lemma createLambdaFunctionResources_tagged:
  "tagged_extension ctx (snd (createLambdaFunctionResources lib directive ctx))"
proof -
  have step: "\<And>c k r. tagged_extension ctx c \<Longrightarrow>
      tagged_extension ctx (if getResource c k = None
        then mapResourceToStack SIDECAR_DIRECTIVE_STACK k (setResource k r c) else c)"
    using tagged_extension_insert tagged_extension_trans by simp
  show ?thesis
    unfolding createLambdaFunctionResources_def Let_def split_def snd_conv
    by (intro step tagged_extension_refl)
qed

lemma and_then_tagged:
  assumes "tagged_extension ctx (snd r)" and "\<And>c. tagged_extension c (snd (f c))"
  shows "tagged_extension ctx (snd (and_then r f))"
proof (cases r)
  case (Pair e c)
  then show ?thesis
    using assms tagged_extension_trans [of ctx c "snd (f c)"]
    by (cases e) (auto simp: and_then_def)
qed

lemma object_tagged: "tagged_extension ctx (snd (object lib definition directive ctx))"
proof (cases "validateObject definition")
  case (Some e)
  then show ?thesis by (simp add: object_def tagged_extension_refl)
next
  case None
  obtain f d c1 where b: "createLambdaFunctionResources lib directive ctx = ((f, d), c1)"
    by (metis surj_pair)
  have c1: "tagged_extension ctx c1"
    using createLambdaFunctionResources_tagged [of ctx lib directive] b by simp
  have first: "tagged_extension ctx (snd (createSidecarResolver lib c1 f d t fld))" for t fld
    using c1 createSidecarResolver_tagged tagged_extension_trans by blast
  show ?thesis
    unfolding object_def None b option.case prod.case
    by (intro and_then_tagged first createSidecarResolver_tagged)
qed

lemma createLambdaFunctionResources_steps:
  "createLambdaFunctionResources lib directive ctx =
     ((FunctionAppSyncFunctionConfigurationID lib (arg_name directive) (arg_region directive),
       FunctionDataSourceID lib (arg_name directive) (arg_region directive)),
      insert_if_absent
        (FunctionAppSyncFunctionConfigurationID lib (arg_name directive) (arg_region directive))
        (function_configuration_resource lib
           (FunctionDataSourceID lib (arg_name directive) (arg_region directive))
           (FunctionAppSyncFunctionConfigurationID lib (arg_name directive) (arg_region directive)))
        (insert_if_absent
           (FunctionDataSourceID lib (arg_name directive) (arg_region directive))
           (data_source_resource lib (arg_name directive) (arg_region directive)
              (FunctionIAMRoleID lib (arg_name directive) (arg_region directive))
              (FunctionDataSourceID lib (arg_name directive) (arg_region directive)))
           (insert_if_absent
              (FunctionIAMRoleID lib (arg_name directive) (arg_region directive))
              (role_resource lib (arg_name directive) (arg_region directive))
              ctx)))"
  by (simp add: createLambdaFunctionResources_def getDirectiveArguments_def insert_if_absent_def
      Let_def)


lemma resources_insert_if_absent:
  "resources (insert_if_absent k r ctx) =
     (if resources ctx k = None then (resources ctx)(k \<mapsto> r) else resources ctx)"
  by (simp add: insert_if_absent_def getResource_def resources_setResource
      resources_mapResourceToStack)

lemma calls_insert_if_absent:
  "calls (insert_if_absent k r ctx) =
     calls ctx @ (if resources ctx k = None
                  then [SetResource k r, MapResourceToStack SIDECAR_DIRECTIVE_STACK k] else [])"
  by (simp add: insert_if_absent_def getResource_def calls_setResource calls_mapResourceToStack)

lemma calls_createSidecarResolver:
  "fieldName \<noteq> [] \<Longrightarrow>
     calls (snd (createSidecarResolver lib ctx fnId dsName typeName fieldName)) =
       calls ctx @ resolver_calls lib fnId dsName (typeName, fieldName)"
  by (cases fieldName)
     (simp_all add: resolver_calls_def sidecarResolverId_def SIDECAR_DIRECTIVE_STACK_def
        calls_setResource calls_mapResourceToStack)

lemma fst_createSidecarResolver:
  "fieldName \<noteq> [] \<Longrightarrow> fst (createSidecarResolver lib ctx fnId dsName typeName fieldName) = None"
  by (cases fieldName) simp_all

lemma and_then_None:
  "fst r = None \<Longrightarrow> and_then r f = f (snd r)"
  by (cases r) (simp add: and_then_def)

lemma attach_resolvers_step:
  "fieldName \<noteq> [] \<Longrightarrow>
     attach_resolvers lib fnId dsName ((typeName, fieldName) # ops) ctx =
       (case attach_resolvers lib fnId dsName ops
               (snd (createSidecarResolver lib ctx fnId dsName typeName fieldName)) of
          (n, r) \<Rightarrow> (Suc n, r))"
  by (cases fieldName) simp_all

lemma attach_resolvers_last:
  "attach_resolvers lib fnId dsName [(typeName, fieldName)] ctx =
     (1, createSidecarResolver lib ctx fnId dsName typeName fieldName)"
  by (cases fieldName) simp_all

lemma set_keys_append: "set_keys (xs @ ys) = set_keys xs @ set_keys ys"
  by (induction xs rule: set_keys.induct) simp_all

lemma set_keys_resolver_calls:
  "set_keys (resolver_calls lib fnId dsName (typeName, fieldName)) =
     [typeName @ (toUpperCase_char (hd fieldName) # tl fieldName) @ ''SidecarResolver'']"
  by (simp add: resolver_calls_def)

lemma set_entries_append: "set_entries (xs @ ys) = set_entries xs @ set_entries ys"
  by (induction xs rule: set_entries.induct) simp_all

lemma adds_onlyI:
  "calls c' = calls c @ new \<Longrightarrow> list_all P (set_entries new) \<Longrightarrow> adds_only P c c'"
  by (simp add: adds_only_def new_calls_def)

lemma adds_onlyD:
  "adds_only P c c' \<Longrightarrow> \<exists>new. calls c' = calls c @ new \<and> list_all P (set_entries new)"
  unfolding adds_only_def new_calls_def
  by (metis append_take_drop_id)

lemma adds_only_refl: "adds_only P c c"
  by (rule adds_onlyI [where new = "[]"]) simp_all

lemma adds_only_trans: "adds_only P a b \<Longrightarrow> adds_only P b c \<Longrightarrow> adds_only P a c"
proof -
  assume "adds_only P a b" "adds_only P b c"
  then obtain n1 n2 where 1: "calls b = calls a @ n1" "list_all P (set_entries n1)"
    and 2: "calls c = calls b @ n2" "list_all P (set_entries n2)"
    using adds_onlyD by blast
  show ?thesis
    by (rule adds_onlyI [where new = "n1 @ n2"]) (simp_all add: 1 2 set_entries_append)
qed

lemma adds_only_insert:
  "P (k, r) \<Longrightarrow> adds_only P c (mapResourceToStack s k (setResource k r c))"
  by (rule adds_onlyI [where new = "[SetResource k r, MapResourceToStack s k]"])
     (simp_all add: calls_setResource calls_mapResourceToStack)

lemma adds_only_insert_if_absent:
  "P (k, r) \<Longrightarrow> adds_only P c (insert_if_absent k r c)"
  by (simp add: insert_if_absent_def adds_only_insert adds_only_refl)

lemma endsWith_append: "endsWith (p @ suffix) suffix"
  by (simp add: endsWith_def startsWith_iff)

lemma role_as_specified:
  "recorded_as_specified lib directive
     (FunctionIAMRoleID lib (arg_name directive) (arg_region directive),
      role_resource lib (arg_name directive) (arg_region directive))"
  by (simp add: recorded_as_specified_def role_resource_def)

lemma data_source_as_specified:
  "recorded_as_specified lib directive
     (FunctionDataSourceID lib (arg_name directive) (arg_region directive),
      data_source_resource lib (arg_name directive) (arg_region directive)
        (FunctionIAMRoleID lib (arg_name directive) (arg_region directive))
        (FunctionDataSourceID lib (arg_name directive) (arg_region directive)))"
  by (simp add: recorded_as_specified_def data_source_resource_def)

lemma function_configuration_as_specified:
  "recorded_as_specified lib directive
     (FunctionAppSyncFunctionConfigurationID lib (arg_name directive) (arg_region directive),
      function_configuration_resource lib
        (FunctionDataSourceID lib (arg_name directive) (arg_region directive))
        (FunctionAppSyncFunctionConfigurationID lib (arg_name directive) (arg_region directive)))"
  by (simp add: recorded_as_specified_def function_configuration_resource_def)

lemma resolver_as_specified:
  "recorded_as_specified lib directive
     (sidecarResolverId typeName c rest,
      resolver_resource lib
        (FunctionAppSyncFunctionConfigurationID lib (arg_name directive) (arg_region directive))
        dsName typeName fieldName)"
proof -
  have "sidecarResolverId typeName c rest = (typeName @ toUpperCase_char c # rest) @ ''SidecarResolver''"
    by (simp add: sidecarResolverId_def)
  then have "endsWith (sidecarResolverId typeName c rest) ''SidecarResolver''"
    using endsWith_append by metis
  then show ?thesis
    by (simp add: recorded_as_specified_def resolver_resource_def)
qed

lemma createLambdaFunctionResources_adds:
  "adds_only (recorded_as_specified lib directive) ctx
     (snd (createLambdaFunctionResources lib directive ctx))"
  unfolding createLambdaFunctionResources_steps snd_conv
  by (intro adds_only_trans [OF _ adds_only_insert_if_absent] adds_only_insert_if_absent
      role_as_specified data_source_as_specified function_configuration_as_specified)

lemma createSidecarResolver_adds:
  "adds_only (recorded_as_specified lib directive) ctx
     (snd (createSidecarResolver lib ctx
        (FunctionAppSyncFunctionConfigurationID lib (arg_name directive) (arg_region directive))
        dsName typeName fieldName))"
  by (cases fieldName) (simp_all add: adds_only_refl adds_only_insert resolver_as_specified)

lemma and_then_adds:
  assumes "adds_only P ctx (snd r)" and "\<And>c. adds_only P c (snd (f c))"
  shows "adds_only P ctx (snd (and_then r f))"
proof (cases r)
  case (Pair e c)
  then show ?thesis
    using assms adds_only_trans [of P ctx c "snd (f c)"]
    by (cases e) (auto simp: and_then_def)
qed

lemma object_adds:
  "adds_only (recorded_as_specified lib directive) ctx (snd (object lib definition directive ctx))"
proof (cases "validateObject definition")
  case (Some e)
  then show ?thesis by (simp add: object_def adds_only_refl)
next
  case None
  let ?f = "FunctionAppSyncFunctionConfigurationID lib (arg_name directive) (arg_region directive)"
  obtain d c1 where b: "createLambdaFunctionResources lib directive ctx = ((?f, d), c1)"
    by (simp add: createLambdaFunctionResources_steps)
  have c1: "adds_only (recorded_as_specified lib directive) ctx c1"
    using createLambdaFunctionResources_adds [of lib directive ctx] b by simp
  have first: "adds_only (recorded_as_specified lib directive) ctx
      (snd (createSidecarResolver lib c1 ?f d t fld))" for t fld
    using c1 createSidecarResolver_adds adds_only_trans by blast
  show ?thesis
    unfolding object_def None b option.case prod.case
    by (intro and_then_adds first createSidecarResolver_adds)
qed

lemma entry_rank:
  assumes "distinct [FunctionIAMRoleID lib (arg_name directive) (arg_region directive),
                     FunctionDataSourceID lib (arg_name directive) (arg_region directive),
                     FunctionAppSyncFunctionConfigurationID lib (arg_name directive)
                       (arg_region directive)]"
    and "\<not> endsWith (FunctionIAMRoleID lib (arg_name directive) (arg_region directive))
           ''SidecarResolver''"
    and "\<not> endsWith (FunctionDataSourceID lib (arg_name directive) (arg_region directive))
           ''SidecarResolver''"
    and "\<not> endsWith (FunctionAppSyncFunctionConfigurationID lib (arg_name directive)
             (arg_region directive)) ''SidecarResolver''"
    and "recorded_as_specified lib directive (k, r)"
  shows "rank lib directive k = type_rank (Type r) \<and>
         (\<forall>d \<in> set (dependency_keys (DependsOn r)). rank lib directive d < rank lib directive k)"
  using assms
  by (cases "Type r") (auto simp: recorded_as_specified_def rank_def)

lemma edge_list_member:
  "(k, d) \<in> set (edge_list cs) \<Longrightarrow>
     \<exists>r. (k, r) \<in> set (set_entries cs) \<and> d \<in> set (dependency_keys (DependsOn r))"
  by (auto simp: edge_list_def)

lemma edge_list_append: "edge_list (xs @ ys) = edge_list xs @ edge_list ys"
  by (simp add: edge_list_def set_entries_append)

lemma DependsOn_descriptors:
  "DependsOn (role_resource l n r) = NoDependsOn"
  "DependsOn (data_source_resource l n r i d) = DependsOnKey i"
  "DependsOn (function_configuration_resource l d f) = DependsOnKey d"
  "DependsOn (resolver_resource l f d t fld) = DependsOnKeys [f]"
  by (simp_all add: role_resource_def data_source_resource_def
      function_configuration_resource_def resolver_resource_def)

lemma edge_list_resolver_calls:
  "edge_list (resolver_calls lib fnId dsName (typeName, fieldName)) =
     [(typeName @ (toUpperCase_char (hd fieldName) # tl fieldName) @ ''SidecarResolver'', fnId)]"
  by (simp add: edge_list_def resolver_calls_def DependsOn_descriptors)

lemma builder_calls:
  "calls (snd (createLambdaFunctionResources lib directive ctx)) =
     calls ctx @ new_calls ctx (snd (createLambdaFunctionResources lib directive ctx))"
  using createLambdaFunctionResources_tagged [of ctx lib directive]
  by (metis append_take_drop_id new_calls_def tagged_extension_def)

lemma builder_edges:
  "edge_list (new_calls ctx (snd (createLambdaFunctionResources lib directive ctx))) =
     (if resources ctx (FunctionDataSourceID lib (arg_name directive) (arg_region directive)) = None \<and>
         FunctionDataSourceID lib (arg_name directive) (arg_region directive)
           \<noteq> FunctionIAMRoleID lib (arg_name directive) (arg_region directive)
      then [(FunctionDataSourceID lib (arg_name directive) (arg_region directive),
             FunctionIAMRoleID lib (arg_name directive) (arg_region directive))]
      else []) @
     (if resources ctx
           (FunctionAppSyncFunctionConfigurationID lib (arg_name directive) (arg_region directive))
           = None \<and>
         FunctionAppSyncFunctionConfigurationID lib (arg_name directive) (arg_region directive)
           \<noteq> FunctionIAMRoleID lib (arg_name directive) (arg_region directive) \<and>
         FunctionAppSyncFunctionConfigurationID lib (arg_name directive) (arg_region directive)
           \<noteq> FunctionDataSourceID lib (arg_name directive) (arg_region directive)
      then [(FunctionAppSyncFunctionConfigurationID lib (arg_name directive) (arg_region directive),
             FunctionDataSourceID lib (arg_name directive) (arg_region directive))]
      else [])"
proof -
  define rk where "rk = FunctionIAMRoleID lib (arg_name directive) (arg_region directive)"
  define dk where "dk = FunctionDataSourceID lib (arg_name directive) (arg_region directive)"
  define fk where
    "fk = FunctionAppSyncFunctionConfigurationID lib (arg_name directive) (arg_region directive)"
  define rr where "rr = role_resource lib (arg_name directive) (arg_region directive)"
  define dr where "dr = data_source_resource lib (arg_name directive) (arg_region directive) rk dk"
  define fr where "fr = function_configuration_resource lib dk fk"
  define c1 where "c1 = insert_if_absent rk rr ctx"
  define c2 where "c2 = insert_if_absent dk dr c1"
  have run: "snd (createLambdaFunctionResources lib directive ctx) = insert_if_absent fk fr c2"
    unfolding c2_def c1_def rk_def dk_def fk_def rr_def dr_def fr_def
    by (simp add: createLambdaFunctionResources_steps)
  have r1: "resources c1 = (if resources ctx rk = None then (resources ctx)(rk \<mapsto> rr) else resources ctx)"
    by (simp add: c1_def resources_insert_if_absent)
  have r2: "resources c2 = (if resources c1 dk = None then (resources c1)(dk \<mapsto> dr) else resources c1)"
    by (simp add: c2_def resources_insert_if_absent)
  have d1: "resources c1 dk = None \<longleftrightarrow> resources ctx dk = None \<and> dk \<noteq> rk"
    unfolding r1 by auto
  have d2: "resources c2 fk = None \<longleftrightarrow> resources ctx fk = None \<and> fk \<noteq> rk \<and> fk \<noteq> dk"
    unfolding r2 r1 by auto
  have new: "new_calls ctx (insert_if_absent fk fr c2) =
      (if resources ctx rk = None
       then [SetResource rk rr, MapResourceToStack SIDECAR_DIRECTIVE_STACK rk] else []) @
      (if resources c1 dk = None
       then [SetResource dk dr, MapResourceToStack SIDECAR_DIRECTIVE_STACK dk] else []) @
      (if resources c2 fk = None
       then [SetResource fk fr, MapResourceToStack SIDECAR_DIRECTIVE_STACK fk] else [])"
    by (simp add: new_calls_def calls_insert_if_absent c2_def c1_def)
  have "edge_list (new_calls ctx (insert_if_absent fk fr c2)) =
      (if resources ctx dk = None \<and> dk \<noteq> rk then [(dk, rk)] else []) @
      (if resources ctx fk = None \<and> fk \<noteq> rk \<and> fk \<noteq> dk then [(fk, dk)] else [])"
    unfolding new d1 d2
    by (simp add: edge_list_def set_entries_append rr_def dr_def fr_def DependsOn_descriptors)
  then show ?thesis
    unfolding run rk_def dk_def fk_def .
qed

lemma object_calls:
  assumes "validateObject definition = None"
    and "plurality lib (''list'' @ name_value definition) True \<noteq> []"
  shows "calls (snd (object lib definition directive ctx)) =
      calls (snd (createLambdaFunctionResources lib directive ctx)) @
      resolver_calls lib
        (FunctionAppSyncFunctionConfigurationID lib (arg_name directive) (arg_region directive))
        (FunctionDataSourceID lib (arg_name directive) (arg_region directive))
        (''Mutation'', ''create'' @ name_value definition) @
      resolver_calls lib
        (FunctionAppSyncFunctionConfigurationID lib (arg_name directive) (arg_region directive))
        (FunctionDataSourceID lib (arg_name directive) (arg_region directive))
        (''Mutation'', ''update'' @ name_value definition) @
      resolver_calls lib
        (FunctionAppSyncFunctionConfigurationID lib (arg_name directive) (arg_region directive))
        (FunctionDataSourceID lib (arg_name directive) (arg_region directive))
        (''Mutation'', ''delete'' @ name_value definition) @
      resolver_calls lib
        (FunctionAppSyncFunctionConfigurationID lib (arg_name directive) (arg_region directive))
        (FunctionDataSourceID lib (arg_name directive) (arg_region directive))
        (''Query'', ''get'' @ name_value definition) @
      resolver_calls lib
        (FunctionAppSyncFunctionConfigurationID lib (arg_name directive) (arg_region directive))
        (FunctionDataSourceID lib (arg_name directive) (arg_region directive))
        (''Query'', plurality lib (''list'' @ name_value definition) True)"
proof -
  define fk where
    "fk = FunctionAppSyncFunctionConfigurationID lib (arg_name directive) (arg_region directive)"
  define dk where "dk = FunctionDataSourceID lib (arg_name directive) (arg_region directive)"
  define T where "T = name_value definition"
  define plural where "plural = plurality lib (''list'' @ T) True"
  obtain ctx1 where built: "createLambdaFunctionResources lib directive ctx = ((fk, dk), ctx1)"
    by (simp add: createLambdaFunctionResources_steps fk_def dk_def)
  have ne: "plural \<noteq> []"
    using assms(2) by (simp add: plural_def T_def)
  define c2 where "c2 = snd (createSidecarResolver lib ctx1 fk dk ''Mutation'' (''create'' @ T))"
  define c3 where "c3 = snd (createSidecarResolver lib c2 fk dk ''Mutation'' (''update'' @ T))"
  define c4 where "c4 = snd (createSidecarResolver lib c3 fk dk ''Mutation'' (''delete'' @ T))"
  define c5 where "c5 = snd (createSidecarResolver lib c4 fk dk ''Query'' (''get'' @ T))"
  have obj: "object lib definition directive ctx = createSidecarResolver lib c5 fk dk ''Query'' plural"
    unfolding object_def assms(1) built option.case prod.case
    by (simp add: and_then_None fst_createSidecarResolver c2_def c3_def c4_def c5_def T_def
        plural_def del: createSidecarResolver.simps)
  have hist: "calls (snd (createSidecarResolver lib c5 fk dk ''Query'' plural)) =
      calls ctx1 @
      resolver_calls lib fk dk (''Mutation'', ''create'' @ T) @
      resolver_calls lib fk dk (''Mutation'', ''update'' @ T) @
      resolver_calls lib fk dk (''Mutation'', ''delete'' @ T) @
      resolver_calls lib fk dk (''Query'', ''get'' @ T) @
      resolver_calls lib fk dk (''Query'', plural)"
    using ne
    by (simp add: calls_createSidecarResolver c2_def c3_def c4_def c5_def
        del: createSidecarResolver.simps)
  have "calls (snd (object lib definition directive ctx)) =
      calls ctx1 @
      resolver_calls lib fk dk (''Mutation'', ''create'' @ T) @
      resolver_calls lib fk dk (''Mutation'', ''update'' @ T) @
      resolver_calls lib fk dk (''Mutation'', ''delete'' @ T) @
      resolver_calls lib fk dk (''Query'', ''get'' @ T) @
      resolver_calls lib fk dk (''Query'', plural)"
    using hist by (simp only: obj)
  then show ?thesis
    by (simp only: built snd_conv fk_def dk_def T_def plural_def)
qed

lemma upper_first:
  "toUpperCase_char CHR ''c'' = CHR ''C''" "toUpperCase_char CHR ''u'' = CHR ''U''"
  "toUpperCase_char CHR ''d'' = CHR ''D''" "toUpperCase_char CHR ''g'' = CHR ''G''"
  "toUpperCase_char CHR ''l'' = CHR ''L''"
  by (simp_all add: toUpperCase_char_def)

lemma object_edges:
  assumes "validateObject definition = None"
    and "plurality lib (''list'' @ name_value definition) True \<noteq> []"
  shows "edge_list (new_calls ctx (snd (object lib definition directive ctx))) =
      edge_list (new_calls ctx (snd (createLambdaFunctionResources lib directive ctx))) @
      [(''MutationCreate'' @ name_value definition @ ''SidecarResolver'',
        FunctionAppSyncFunctionConfigurationID lib (arg_name directive) (arg_region directive)),
       (''MutationUpdate'' @ name_value definition @ ''SidecarResolver'',
        FunctionAppSyncFunctionConfigurationID lib (arg_name directive) (arg_region directive)),
       (''MutationDelete'' @ name_value definition @ ''SidecarResolver'',
        FunctionAppSyncFunctionConfigurationID lib (arg_name directive) (arg_region directive)),
       (''QueryGet'' @ name_value definition @ ''SidecarResolver'',
        FunctionAppSyncFunctionConfigurationID lib (arg_name directive) (arg_region directive)),
       (''Query'' @
          (toUpperCase_char (hd (plurality lib (''list'' @ name_value definition) True)) #
           tl (plurality lib (''list'' @ name_value definition) True)) @ ''SidecarResolver'',
        FunctionAppSyncFunctionConfigurationID lib (arg_name directive) (arg_region directive))]"
proof -
  let ?b = "snd (createLambdaFunctionResources lib directive ctx)"
  let ?o = "snd (object lib definition directive ctx)"
  let ?f = "FunctionAppSyncFunctionConfigurationID lib (arg_name directive) (arg_region directive)"
  let ?d = "FunctionDataSourceID lib (arg_name directive) (arg_region directive)"
  define R where "R =
      resolver_calls lib ?f ?d (''Mutation'', ''create'' @ name_value definition) @
      resolver_calls lib ?f ?d (''Mutation'', ''update'' @ name_value definition) @
      resolver_calls lib ?f ?d (''Mutation'', ''delete'' @ name_value definition) @
      resolver_calls lib ?f ?d (''Query'', ''get'' @ name_value definition) @
      resolver_calls lib ?f ?d (''Query'', plurality lib (''list'' @ name_value definition) True)"
  have 1: "calls ?o = calls ?b @ R"
    unfolding R_def by (rule object_calls [OF assms])
  have 2: "calls ?o = calls ctx @ (new_calls ctx ?b @ R)"
    unfolding 1 by (subst builder_calls) simp
  have 3: "new_calls ctx ?o = new_calls ctx ?b @ R"
    unfolding new_calls_def [of ctx ?o] 2 by simp
  show ?thesis
    unfolding 3 edge_list_append
    by (simp add: R_def edge_list_append edge_list_resolver_calls upper_first)
qed

lemma sample_keys:
  "FunctionIAMRoleID sample_library ''myFn'' None = ''myFnLambdaDataSourceRole''"
  "FunctionDataSourceID sample_library ''myFn'' None = ''myFnLambdaDataSource''"
  "FunctionAppSyncFunctionConfigurationID sample_library ''myFn'' None
     = ''InvokemyFnLambdaDataSource''"
  "plurality sample_library ''listWidget'' True = ''listWidgets''"
  by (simp_all add: sample_library_def)

lemma sample_inputs:
  "arg_name myFn = ''myFn''" "arg_region myFn = None" "name_value widget = ''Widget''"
  "validateObject widget = None" "calls empty_context = []" "resources empty_context = Map.empty"
  by (simp_all add: myFn_def widget_def validateObject_def empty_context_def)

section \<open>The validation gate\<close>

text \<open>
  C2. When the directives of the annotated type do not include \<open>model\<close> (the type has no
  directives at all, or none of them is named \<open>model\<close>), \<open>object\<close> throws an
  \<open>InvalidDirectiveError\<close> and leaves the context as it was: registry, stack mapping and
  the history of calls are those it started with.
\<close>

theorem validation_gate:
  "''model'' \<notin> set (case directives definition of None \<Rightarrow> [] | Some ds \<Rightarrow> ds) \<Longrightarrow>
     \<exists>msg. object lib definition directive ctx = (Some (InvalidDirectiveError msg), ctx)"
proof -
  assume "''model'' \<notin> set (case directives definition of None \<Rightarrow> [] | Some ds \<Rightarrow> ds)"
  then obtain msg where "validateObject definition = Some (InvalidDirectiveError msg)"
    using validateObject_no_model by blast
  then show ?thesis by (simp add: object_def)
qed

theorem validation_gate_witness:
  "''model'' \<notin> set (case directives gadget of None \<Rightarrow> [] | Some ds \<Rightarrow> ds) \<and>
   (\<exists>msg. object sample_library gadget myFn empty_context
            = (Some (InvalidDirectiveError msg), empty_context))"
  using validation_gate [of gadget sample_library myFn empty_context]
  by (simp add: gadget_def)

section \<open>The conditional address\<close>

text \<open>
  C5. For the target name \<open>myFn-${env}\<close> and any region, \<open>lambdaArnResource\<close> is a
  conditional on the environment-parameter condition. Its branch for a defined environment
  parameter is the address template of the name as given, with the substitution of
  \<open>env\<close> by a reference to the environment parameter; its branch for an undefined one
  is the address template of \<open>myFn\<close>, with no substitution.
\<close>

theorem lambdaArnResource_myFn_env:
  "lambdaArnResource lib ''myFn-${env}'' region =
     Fn_If (CONDITIONS_HasEnvironmentParameter lib)
       (Fn_Sub (lambdaArnKey ''myFn-${env}'' region) [(''env'', Fn_Ref (PARAMETERS_Env lib))])
       (Fn_Sub (lambdaArnKey ''myFn'' region) [])"
  by (simp add: lambdaArnResource_def referencesEnv_def removeEnvReference_def)

text \<open>
  C6, amended. When the target name does not contain \<open>${env}\<close>, both branches of the
  conditional are the address template of the name as given, with no substitution. The
  address template embeds the region and the account pseudo-parameter when the region is
  a non-empty string; when the region is absent or is the empty string, it uses the region
  pseudo-parameter of the deployment.
\<close>

theorem lambdaArnResource_without_env:
  "((\<nexists>pre post. name = pre @ ''${env}'' @ post) \<longrightarrow>
      lambdaArnResource lib name region =
        Fn_If (CONDITIONS_HasEnvironmentParameter lib)
          (Fn_Sub (lambdaArnKey name region) [])
          (Fn_Sub (lambdaArnKey name region) [])) \<and>
   (r \<noteq> [] \<longrightarrow>
      lambdaArnKey name (Some r) = ''arn:aws:lambda:'' @ r @ '':${AWS::AccountId}:function:'' @ name) \<and>
   lambdaArnKey name None = ''arn:aws:lambda:${AWS::Region}:${AWS::AccountId}:function:'' @ name \<and>
   lambdaArnKey name (Some []) = ''arn:aws:lambda:${AWS::Region}:${AWS::AccountId}:function:'' @ name"
proof -
  have "lambdaArnResource lib name region =
        Fn_If (CONDITIONS_HasEnvironmentParameter lib)
          (Fn_Sub (lambdaArnKey name region) [])
          (Fn_Sub (lambdaArnKey name region) [])"
    if "\<nexists>pre post. name = pre @ ''${env}'' @ post"
  proof -
    from that have "\<not> has_match name ''${env}''" using has_match_iff by blast
    then show ?thesis
      by (simp add: lambdaArnResource_def referencesEnv_def removeEnvReference_no_env)
  qed
  then show ?thesis by (simp add: lambdaArnKey_def)
qed

theorem lambdaArnResource_without_env_witness:
  "\<not> has_match ''myFn'' ''${env}'' \<and> ''us-east-1'' \<noteq> [] \<and>
   lambdaArnResource sample_library ''myFn'' (Some ''us-east-1'') =
     Fn_If ''HasEnvironmentParameter''
       (Fn_Sub ''arn:aws:lambda:us-east-1:${AWS::AccountId}:function:myFn'' [])
       (Fn_Sub ''arn:aws:lambda:us-east-1:${AWS::AccountId}:function:myFn'' [])"
  using lambdaArnResource_without_env [of "''myFn''" sample_library "Some ''us-east-1''" "''us-east-1''"]
    has_match_iff [of "''myFn''" "''${env}''"]
  by (simp add: sample_library_def)

text \<open>
  The region \<open>""\<close> is supplied, and the address template does not embed it: the test
  \<open>region ? .. : ..\<close> of \<open>lambdaArnKey\<close> takes the empty string for an absent region.
\<close>

theorem lambdaArnResource_empty_region:
  "lambdaArnResource sample_library ''myFn'' (Some '''') =
     Fn_If ''HasEnvironmentParameter''
       (Fn_Sub ''arn:aws:lambda:${AWS::Region}:${AWS::AccountId}:function:myFn'' [])
       (Fn_Sub ''arn:aws:lambda:${AWS::Region}:${AWS::AccountId}:function:myFn'' []) \<and>
   lambdaArnKey ''myFn'' (Some '''') \<noteq>
     ''arn:aws:lambda:'' @ '''' @ '':${AWS::AccountId}:function:'' @ ''myFn''"
  by (simp add: lambdaArnResource_def referencesEnv_def removeEnvReference_def lambdaArnKey_def
      sample_library_def)

text \<open>
  C10. \<open>referencesEnv\<close> holds exactly when \<open>${env}\<close> occurs somewhere in the name.
  \<open>removeEnvReference\<close> leaves a name without \<open>-${env}\<close> as it is, and otherwise
  removes the first occurrence of \<open>-${env}\<close> and nothing else. So for a name with an
  occurrence of \<open>${env}\<close> that no hyphen precedes, the branch of the conditional for an
  undefined environment parameter has an address template that still contains
  \<open>${env}\<close>, with no substitution.
\<close>

theorem stripping_narrower_than_detection:
  "(referencesEnv name \<longleftrightarrow> (\<exists>p q. name = p @ ''${env}'' @ q)) \<and>
   ((\<nexists>p q. name = p @ ''-${env}'' @ q) \<longrightarrow> removeEnvReference name = name) \<and>
   ((\<nexists>p q. pre = p @ ''-${env}'' @ q) \<longrightarrow>
      removeEnvReference (pre @ ''-${env}'' @ post) = pre @ post) \<and>
   (pre = [] \<or> last pre \<noteq> CHR ''-'' \<longrightarrow>
      lambdaArnResource lib (pre @ ''${env}'' @ post) region =
        Fn_If (CONDITIONS_HasEnvironmentParameter lib)
          (Fn_Sub (lambdaArnKey (pre @ ''${env}'' @ post) region)
             [(''env'', Fn_Ref (PARAMETERS_Env lib))])
          (Fn_Sub (lambdaArnKey (removeEnvReference (pre @ ''${env}'' @ post)) region) []) \<and>
      (\<exists>p q. lambdaArnKey (removeEnvReference (pre @ ''${env}'' @ post)) region
               = p @ ''${env}'' @ q))"
proof (intro conjI impI)
  show "referencesEnv name \<longleftrightarrow> (\<exists>p q. name = p @ ''${env}'' @ q)"
    by (simp add: referencesEnv_def has_match_iff)
next
  assume "\<nexists>p q. name = p @ ''-${env}'' @ q"
  then have "\<not> has_match name ''-${env}''" using has_match_iff by blast
  then show "removeEnvReference name = name"
    by (simp add: removeEnvReference_def replace_first_no_match)
next
  assume "\<nexists>p q. pre = p @ ''-${env}'' @ q"
  then have "\<not> has_match pre ''-${env}''" using has_match_iff by blast
  then show "removeEnvReference (pre @ ''-${env}'' @ post) = pre @ post"
    by (rule removeEnvReference_first)
next
  assume "pre = [] \<or> last pre \<noteq> CHR ''-''"
  have "referencesEnv (pre @ ''${env}'' @ post)"
    unfolding referencesEnv_def has_match_iff by blast
  then show "lambdaArnResource lib (pre @ ''${env}'' @ post) region =
        Fn_If (CONDITIONS_HasEnvironmentParameter lib)
          (Fn_Sub (lambdaArnKey (pre @ ''${env}'' @ post) region)
             [(''env'', Fn_Ref (PARAMETERS_Env lib))])
          (Fn_Sub (lambdaArnKey (removeEnvReference (pre @ ''${env}'' @ post)) region) [])"
    by (simp add: lambdaArnResource_def)
next
  assume "pre = [] \<or> last pre \<noteq> CHR ''-''"
  then have "has_match (removeEnvReference (pre @ ''${env}'' @ post)) ''${env}''"
    by (rule removeEnvReference_keeps_env)
  then obtain a b where ab: "removeEnvReference (pre @ ''${env}'' @ post) = a @ ''${env}'' @ b"
    using has_match_iff by blast
  obtain p where "lambdaArnKey (removeEnvReference (pre @ ''${env}'' @ post)) region
      = p @ removeEnvReference (pre @ ''${env}'' @ post)"
    using lambdaArnKey_suffix by blast
  then have "lambdaArnKey (removeEnvReference (pre @ ''${env}'' @ post)) region
      = (p @ a) @ ''${env}'' @ b"
    using ab by simp
  then show "\<exists>p q. lambdaArnKey (removeEnvReference (pre @ ''${env}'' @ post)) region
               = p @ ''${env}'' @ q"
    by blast
qed

theorem stripping_narrower_than_detection_witness:
  "\<not> has_match ''${env}-myFn'' ''-${env}'' \<and>
   referencesEnv ''${env}-myFn'' \<and>
   removeEnvReference ''${env}-myFn'' = ''${env}-myFn'' \<and>
   removeEnvReference (''a'' @ ''-${env}'' @ ''-b-${env}'') = ''a-b-${env}'' \<and>
   lambdaArnResource sample_library ''${env}-myFn'' None =
     Fn_If ''HasEnvironmentParameter''
       (Fn_Sub ''arn:aws:lambda:${AWS::Region}:${AWS::AccountId}:function:${env}-myFn''
          [(''env'', Fn_Ref ''env'')])
       (Fn_Sub ''arn:aws:lambda:${AWS::Region}:${AWS::AccountId}:function:${env}-myFn'' [])"
  using stripping_narrower_than_detection
    [where name = "''${env}-myFn''" and pre = "[]" and post = "''-myFn''"
       and lib = sample_library and region = None]
  by (simp add: lambdaArnKey_def sample_library_def referencesEnv_def removeEnvReference_def)

section \<open>The stack of the inserted resources\<close>

text \<open>
  C7. Whatever the inputs and the context, the calls that the Resource Graph Builder, the
  Resolver Attacher and the entry point add to the history of the context are a sequence of
  pairs: a \<open>setResource\<close> under a key, followed at once by the \<open>mapResourceToStack\<close> of
  that key to the constant \<open>FunctionDirectiveStack\<close>. So every insertion of the role,
  the data source, the function configuration and the five resolvers is tagged under its
  own key, nothing is inserted without the tag, and no other tag is used.
\<close>

theorem every_insertion_tagged:
  "tagged_extension ctx (snd (createLambdaFunctionResources lib directive ctx)) \<and>
   tagged_extension ctx (snd (createSidecarResolver lib ctx fnId dsName typeName fieldName)) \<and>
   tagged_extension ctx (snd (object lib definition directive ctx)) \<and>
   SIDECAR_DIRECTIVE_STACK = ''FunctionDirectiveStack''"
  by (simp add: createLambdaFunctionResources_tagged createSidecarResolver_tagged object_tagged
      SIDECAR_DIRECTIVE_STACK_def)

section \<open>The Resolver Attacher\<close>

text \<open>
  C9. On every field name it can receive (a non-empty name whose first character is
  ASCII, as are the four names \<open>create\<close>, \<open>update\<close>, \<open>delete\<close>, \<open>get\<close> followed
  by the type name that the entry point passes), and whatever the registry holds,
  \<open>createSidecarResolver\<close> calls \<open>setResource\<close> exactly once, under the type name
  followed by the field name with its first character in upper case and by
  \<open>SidecarResolver\<close>, then tags that key. It does not look the key up first: an entry
  already there is replaced by the resolver.
\<close>

theorem createSidecarResolver_inserts:
  "(fieldName \<noteq> [] \<and> is_ascii (hd fieldName) \<longrightarrow>
     createSidecarResolver lib ctx fnId dsName typeName fieldName =
       (None,
        mapResourceToStack ''FunctionDirectiveStack''
          (typeName @ (toUpperCase_char (hd fieldName) # tl fieldName) @ ''SidecarResolver'')
          (setResource
             (typeName @ (toUpperCase_char (hd fieldName) # tl fieldName) @ ''SidecarResolver'')
             (resolver_resource lib fnId dsName typeName fieldName) ctx)) \<and>
     calls (snd (createSidecarResolver lib ctx fnId dsName typeName fieldName)) =
       calls ctx @ resolver_calls lib fnId dsName (typeName, fieldName) \<and>
     set_keys (resolver_calls lib fnId dsName (typeName, fieldName)) =
       [typeName @ (toUpperCase_char (hd fieldName) # tl fieldName) @ ''SidecarResolver''] \<and>
     resources (snd (createSidecarResolver lib ctx fnId dsName typeName fieldName))
       (typeName @ (toUpperCase_char (hd fieldName) # tl fieldName) @ ''SidecarResolver'') =
       Some (resolver_resource lib fnId dsName typeName fieldName)) \<and>
   list_all (\<lambda>operation. operation @ T \<noteq> [] \<and> is_ascii (hd (operation @ T)))
     [''create'', ''update'', ''delete'', ''get'']"
proof (intro conjI impI)
  assume "fieldName \<noteq> [] \<and> is_ascii (hd fieldName)"
  then obtain c rest where f: "fieldName = c # rest"
    by (cases fieldName) auto
  show "createSidecarResolver lib ctx fnId dsName typeName fieldName =
       (None,
        mapResourceToStack ''FunctionDirectiveStack''
          (typeName @ (toUpperCase_char (hd fieldName) # tl fieldName) @ ''SidecarResolver'')
          (setResource
             (typeName @ (toUpperCase_char (hd fieldName) # tl fieldName) @ ''SidecarResolver'')
             (resolver_resource lib fnId dsName typeName fieldName) ctx))"
    by (simp add: f sidecarResolverId_def SIDECAR_DIRECTIVE_STACK_def)
  show "calls (snd (createSidecarResolver lib ctx fnId dsName typeName fieldName)) =
       calls ctx @ resolver_calls lib fnId dsName (typeName, fieldName)"
    by (simp add: f calls_createSidecarResolver del: createSidecarResolver.simps)
  show "set_keys (resolver_calls lib fnId dsName (typeName, fieldName)) =
       [typeName @ (toUpperCase_char (hd fieldName) # tl fieldName) @ ''SidecarResolver'']"
    by (rule set_keys_resolver_calls)
  show "resources (snd (createSidecarResolver lib ctx fnId dsName typeName fieldName))
       (typeName @ (toUpperCase_char (hd fieldName) # tl fieldName) @ ''SidecarResolver'') =
       Some (resolver_resource lib fnId dsName typeName fieldName)"
    by (simp add: f sidecarResolverId_def resources_setResource resources_mapResourceToStack)
next
  show "list_all (\<lambda>operation. operation @ T \<noteq> [] \<and> is_ascii (hd (operation @ T)))
     [''create'', ''update'', ''delete'', ''get'']"
    by (simp add: is_ascii_def)
qed

theorem createSidecarResolver_inserts_witness:
  "''getWidget'' \<noteq> [] \<and> is_ascii (hd ''getWidget'') \<and>
   resources occupied_context ''QueryGetWidgetSidecarResolver''
     = Some (role_resource sample_library ''other'' None) \<and>
   fst (createSidecarResolver sample_library occupied_context ''InvokemyFnLambdaDataSource''
          ''myFnLambdaDataSource'' ''Query'' ''getWidget'') = None \<and>
   set_keys (new_calls occupied_context
     (snd (createSidecarResolver sample_library occupied_context ''InvokemyFnLambdaDataSource''
             ''myFnLambdaDataSource'' ''Query'' ''getWidget'')))
     = [''QueryGetWidgetSidecarResolver''] \<and>
   resources
     (snd (createSidecarResolver sample_library occupied_context ''InvokemyFnLambdaDataSource''
             ''myFnLambdaDataSource'' ''Query'' ''getWidget''))
     ''QueryGetWidgetSidecarResolver''
     = Some (resolver_resource sample_library ''InvokemyFnLambdaDataSource''
               ''myFnLambdaDataSource'' ''Query'' ''getWidget'')"
  using createSidecarResolver_inserts [of "''getWidget''" sample_library occupied_context
      "''InvokemyFnLambdaDataSource''" "''myFnLambdaDataSource''" "''Query''"]
  by (simp add: is_ascii_def upper_first new_calls_def occupied_context_def resources_setResource
      resources_mapResourceToStack calls_setResource calls_mapResourceToStack
      sidecarResolverId_def SIDECAR_DIRECTIVE_STACK_def)

section \<open>The Resource Graph Builder\<close>



section \<open>The entry point\<close>

text \<open>
  C4. For an annotated type named \<open>T\<close> whose directives include \<open>model\<close>,
  \<open>object\<close> is the Resource Graph Builder followed by the Resolver Attacher invoked in
  order on \<open>createT\<close>, \<open>updateT\<close>, \<open>deleteT\<close> (type \<open>Mutation\<close>), \<open>getT\<close> and
  the plural of \<open>listT\<close> (type \<open>Query\<close>): five invocations, each with the function
  configuration key and the data-source key that the builder returned. When the plural is
  not empty, the run ends without an exception and adds to the history, after the calls of
  the builder, the calls of these five resolvers in that order.
\<close>

theorem object_attaches_five_resolvers:
  assumes "directives definition = Some ds" and "''model'' \<in> set ds"
  shows
    "(case createLambdaFunctionResources lib directive ctx of
        ((fnId, dsName), ctx1) \<Rightarrow>
          attach_resolvers lib fnId dsName
            [(''Mutation'', ''create'' @ name_value definition),
             (''Mutation'', ''update'' @ name_value definition),
             (''Mutation'', ''delete'' @ name_value definition),
             (''Query'', ''get'' @ name_value definition),
             (''Query'', plurality lib (''list'' @ name_value definition) True)]
            ctx1
          = (5, object lib definition directive ctx) \<and>
          (plurality lib (''list'' @ name_value definition) True \<noteq> [] \<longrightarrow>
             fst (object lib definition directive ctx) = None \<and>
             calls (snd (object lib definition directive ctx)) =
               calls ctx1 @
               resolver_calls lib fnId dsName (''Mutation'', ''create'' @ name_value definition) @
               resolver_calls lib fnId dsName (''Mutation'', ''update'' @ name_value definition) @
               resolver_calls lib fnId dsName (''Mutation'', ''delete'' @ name_value definition) @
               resolver_calls lib fnId dsName (''Query'', ''get'' @ name_value definition) @
               resolver_calls lib fnId dsName
                 (''Query'', plurality lib (''list'' @ name_value definition) True)))"
proof -
  obtain fnId dsName ctx1 where
    built: "createLambdaFunctionResources lib directive ctx = ((fnId, dsName), ctx1)"
    by (metis surj_pair)
  define T where "T = name_value definition"
  define plural where "plural = plurality lib (''list'' @ T) True"
  define c2 where "c2 = snd (createSidecarResolver lib ctx1 fnId dsName ''Mutation'' (''create'' @ T))"
  define c3 where "c3 = snd (createSidecarResolver lib c2 fnId dsName ''Mutation'' (''update'' @ T))"
  define c4 where "c4 = snd (createSidecarResolver lib c3 fnId dsName ''Mutation'' (''delete'' @ T))"
  define c5 where "c5 = snd (createSidecarResolver lib c4 fnId dsName ''Query'' (''get'' @ T))"
  have valid: "validateObject definition = None"
    using assms by (rule validateObject_model)
  have obj: "object lib definition directive ctx =
      createSidecarResolver lib c5 fnId dsName ''Query'' plural"
    unfolding object_def valid built option.case prod.case
    by (simp add: and_then_None fst_createSidecarResolver c2_def c3_def c4_def c5_def T_def
        plural_def del: createSidecarResolver.simps)
  have att: "attach_resolvers lib fnId dsName
      [(''Mutation'', ''create'' @ T), (''Mutation'', ''update'' @ T),
       (''Mutation'', ''delete'' @ T), (''Query'', ''get'' @ T), (''Query'', plural)] ctx1
      = (5, createSidecarResolver lib c5 fnId dsName ''Query'' plural)"
    by (simp add: attach_resolvers_step attach_resolvers_last c2_def c3_def c4_def c5_def
        del: attach_resolvers.simps createSidecarResolver.simps)
  have hist: "calls (snd (createSidecarResolver lib c5 fnId dsName ''Query'' plural)) =
      calls ctx1 @
      resolver_calls lib fnId dsName (''Mutation'', ''create'' @ T) @
      resolver_calls lib fnId dsName (''Mutation'', ''update'' @ T) @
      resolver_calls lib fnId dsName (''Mutation'', ''delete'' @ T) @
      resolver_calls lib fnId dsName (''Query'', ''get'' @ T) @
      resolver_calls lib fnId dsName (''Query'', plural)"
    if "plural \<noteq> []"
    using that
    by (simp add: calls_createSidecarResolver c2_def c3_def c4_def c5_def
        del: createSidecarResolver.simps)
  show ?thesis
    unfolding built prod.case obj T_def [symmetric] plural_def [symmetric]
    using att hist fst_createSidecarResolver [of plural lib c5 fnId dsName "''Query''"]
    by blast
qed

theorem object_attaches_five_resolvers_witness:
  "directives widget = Some [''model'', ''sidecar''] \<and>
   ''model'' \<in> set [''model'', ''sidecar''] \<and>
   attach_resolvers sample_library ''InvokemyFnLambdaDataSource'' ''myFnLambdaDataSource''
     [(''Mutation'', ''createWidget''), (''Mutation'', ''updateWidget''),
      (''Mutation'', ''deleteWidget''), (''Query'', ''getWidget''), (''Query'', ''listWidgets'')]
     (snd (createLambdaFunctionResources sample_library myFn empty_context))
     = (5, object sample_library widget myFn empty_context) \<and>
   fst (object sample_library widget myFn empty_context) = None \<and>
   set_keys (new_calls (snd (createLambdaFunctionResources sample_library myFn empty_context))
               (snd (object sample_library widget myFn empty_context)))
     = [''MutationCreateWidgetSidecarResolver'', ''MutationUpdateWidgetSidecarResolver'',
        ''MutationDeleteWidgetSidecarResolver'', ''QueryGetWidgetSidecarResolver'',
        ''QueryListWidgetsSidecarResolver'']"
proof -
  have w: "directives widget = Some [''model'', ''sidecar'']" "name_value widget = ''Widget''"
    by (simp_all add: widget_def)
  have m: "''model'' \<in> set [''model'', ''sidecar'']"
    by simp
  have p: "plurality sample_library ''listWidget'' True = ''listWidgets''"
    by (simp add: sample_library_def)
  have k: "fst (createLambdaFunctionResources sample_library myFn empty_context)
      = (''InvokemyFnLambdaDataSource'', ''myFnLambdaDataSource'')"
    by (simp add: createLambdaFunctionResources_steps sample_library_def myFn_def)
  have u: "map toUpperCase_char ''cudgl'' = ''CUDGL''"
    by (simp add: toUpperCase_char_def)
  show ?thesis
    using object_attaches_five_resolvers
      [OF w(1) m, where lib = sample_library and directive = myFn and ctx = empty_context]
      k u
    by (simp add: split_beta w p new_calls_def set_keys_append set_keys_resolver_calls)
qed

section \<open>The dependency edges\<close>

text \<open>
  C3. One run of \<open>object\<close> on a type that passes validation (with a non-empty plural)
  records exactly these dependency edges, in this order: from the data-source key to the
  role key when the run inserts the data source, from the function-configuration key to
  the data-source key when the run inserts the function configuration, and from each of
  the five resolver keys to the function-configuration key; no edge leaves the role key.
  Every descriptor that a run inserts, whatever the input, has the dependencies of its
  kind: a role none, the data source the role key, the function configuration the
  data-source key, a resolver the function-configuration key. When the three keys of the
  target are distinct and none of them ends in \<open>SidecarResolver\<close>, every inserted key
  has the rank of its kind (role 0, data source 1, function configuration 2, resolver 3),
  every recorded edge leads from a key to a key of strictly lower rank, so that the role
  comes before the data source, the data source before the function configuration and the
  function configuration before every resolver, and the recorded edges are acyclic.
\<close>

theorem dependency_edges:
  "(directives definition = Some ds \<and> ''model'' \<in> set ds \<and>
    plurality lib (''list'' @ name_value definition) True \<noteq> [] \<longrightarrow>
      edge_list (new_calls ctx (snd (object lib definition directive ctx))) =
        (if resources ctx (FunctionDataSourceID lib (arg_name directive) (arg_region directive)) = None \<and>
            FunctionDataSourceID lib (arg_name directive) (arg_region directive)
              \<noteq> FunctionIAMRoleID lib (arg_name directive) (arg_region directive)
         then [(FunctionDataSourceID lib (arg_name directive) (arg_region directive),
                FunctionIAMRoleID lib (arg_name directive) (arg_region directive))]
         else []) @
        (if resources ctx
              (FunctionAppSyncFunctionConfigurationID lib (arg_name directive) (arg_region directive))
              = None \<and>
            FunctionAppSyncFunctionConfigurationID lib (arg_name directive) (arg_region directive)
              \<noteq> FunctionIAMRoleID lib (arg_name directive) (arg_region directive) \<and>
            FunctionAppSyncFunctionConfigurationID lib (arg_name directive) (arg_region directive)
              \<noteq> FunctionDataSourceID lib (arg_name directive) (arg_region directive)
         then [(FunctionAppSyncFunctionConfigurationID lib (arg_name directive) (arg_region directive),
                FunctionDataSourceID lib (arg_name directive) (arg_region directive))]
         else []) @
        [(''MutationCreate'' @ name_value definition @ ''SidecarResolver'',
          FunctionAppSyncFunctionConfigurationID lib (arg_name directive) (arg_region directive)),
         (''MutationUpdate'' @ name_value definition @ ''SidecarResolver'',
          FunctionAppSyncFunctionConfigurationID lib (arg_name directive) (arg_region directive)),
         (''MutationDelete'' @ name_value definition @ ''SidecarResolver'',
          FunctionAppSyncFunctionConfigurationID lib (arg_name directive) (arg_region directive)),
         (''QueryGet'' @ name_value definition @ ''SidecarResolver'',
          FunctionAppSyncFunctionConfigurationID lib (arg_name directive) (arg_region directive)),
         (''Query'' @
            (toUpperCase_char (hd (plurality lib (''list'' @ name_value definition) True)) #
             tl (plurality lib (''list'' @ name_value definition) True)) @ ''SidecarResolver'',
          FunctionAppSyncFunctionConfigurationID lib (arg_name directive) (arg_region directive))]) \<and>
   list_all (recorded_as_specified lib directive)
     (set_entries (new_calls ctx (snd (object lib definition directive ctx)))) \<and>
   (distinct [FunctionIAMRoleID lib (arg_name directive) (arg_region directive),
              FunctionDataSourceID lib (arg_name directive) (arg_region directive),
              FunctionAppSyncFunctionConfigurationID lib (arg_name directive)
                (arg_region directive)] \<and>
    \<not> endsWith (FunctionIAMRoleID lib (arg_name directive) (arg_region directive))
         ''SidecarResolver'' \<and>
    \<not> endsWith (FunctionDataSourceID lib (arg_name directive) (arg_region directive))
         ''SidecarResolver'' \<and>
    \<not> endsWith (FunctionAppSyncFunctionConfigurationID lib (arg_name directive)
           (arg_region directive)) ''SidecarResolver'' \<longrightarrow>
      list_all (\<lambda>(k, r). rank lib directive k = type_rank (Type r))
        (set_entries (new_calls ctx (snd (object lib definition directive ctx)))) \<and>
      list_all (\<lambda>(k, d). rank lib directive d < rank lib directive k)
        (edge_list (new_calls ctx (snd (object lib definition directive ctx)))) \<and>
      acyclic (set (edge_list (new_calls ctx (snd (object lib definition directive ctx))))))"
proof (intro conjI impI)
  let ?new = "new_calls ctx (snd (object lib definition directive ctx))"
  show spec: "list_all (recorded_as_specified lib directive) (set_entries ?new)"
    using object_adds [of lib directive ctx "definition"] by (simp add: adds_only_def new_calls_def)
  {
    assume V: "directives definition = Some ds \<and> ''model'' \<in> set ds \<and>
      plurality lib (''list'' @ name_value definition) True \<noteq> []"
    then have valid: "validateObject definition = None"
      using validateObject_model by blast
    from V have pl: "plurality lib (''list'' @ name_value definition) True \<noteq> []"
      by simp
    show "edge_list ?new =
        (if resources ctx (FunctionDataSourceID lib (arg_name directive) (arg_region directive)) = None \<and>
            FunctionDataSourceID lib (arg_name directive) (arg_region directive)
              \<noteq> FunctionIAMRoleID lib (arg_name directive) (arg_region directive)
         then [(FunctionDataSourceID lib (arg_name directive) (arg_region directive),
                FunctionIAMRoleID lib (arg_name directive) (arg_region directive))]
         else []) @
        (if resources ctx
              (FunctionAppSyncFunctionConfigurationID lib (arg_name directive) (arg_region directive))
              = None \<and>
            FunctionAppSyncFunctionConfigurationID lib (arg_name directive) (arg_region directive)
              \<noteq> FunctionIAMRoleID lib (arg_name directive) (arg_region directive) \<and>
            FunctionAppSyncFunctionConfigurationID lib (arg_name directive) (arg_region directive)
              \<noteq> FunctionDataSourceID lib (arg_name directive) (arg_region directive)
         then [(FunctionAppSyncFunctionConfigurationID lib (arg_name directive) (arg_region directive),
                FunctionDataSourceID lib (arg_name directive) (arg_region directive))]
         else []) @
        [(''MutationCreate'' @ name_value definition @ ''SidecarResolver'',
          FunctionAppSyncFunctionConfigurationID lib (arg_name directive) (arg_region directive)),
         (''MutationUpdate'' @ name_value definition @ ''SidecarResolver'',
          FunctionAppSyncFunctionConfigurationID lib (arg_name directive) (arg_region directive)),
         (''MutationDelete'' @ name_value definition @ ''SidecarResolver'',
          FunctionAppSyncFunctionConfigurationID lib (arg_name directive) (arg_region directive)),
         (''QueryGet'' @ name_value definition @ ''SidecarResolver'',
          FunctionAppSyncFunctionConfigurationID lib (arg_name directive) (arg_region directive)),
         (''Query'' @
            (toUpperCase_char (hd (plurality lib (''list'' @ name_value definition) True)) #
             tl (plurality lib (''list'' @ name_value definition) True)) @ ''SidecarResolver'',
          FunctionAppSyncFunctionConfigurationID lib (arg_name directive) (arg_region directive))]"
      by (simp only: object_edges [OF valid pl] builder_edges append_assoc)
  }
  assume H: "distinct [FunctionIAMRoleID lib (arg_name directive) (arg_region directive),
              FunctionDataSourceID lib (arg_name directive) (arg_region directive),
              FunctionAppSyncFunctionConfigurationID lib (arg_name directive)
                (arg_region directive)] \<and>
    \<not> endsWith (FunctionIAMRoleID lib (arg_name directive) (arg_region directive))
         ''SidecarResolver'' \<and>
    \<not> endsWith (FunctionDataSourceID lib (arg_name directive) (arg_region directive))
         ''SidecarResolver'' \<and>
    \<not> endsWith (FunctionAppSyncFunctionConfigurationID lib (arg_name directive)
           (arg_region directive)) ''SidecarResolver''"
  have entry: "rank lib directive k = type_rank (Type r) \<and>
      (\<forall>d \<in> set (dependency_keys (DependsOn r)). rank lib directive d < rank lib directive k)"
    if "(k, r) \<in> set (set_entries ?new)" for k r
  proof -
    from spec that have "recorded_as_specified lib directive (k, r)"
      by (simp add: list_all_iff)
    with H show ?thesis
      by (intro entry_rank) simp_all
  qed
  show "list_all (\<lambda>(k, r). rank lib directive k = type_rank (Type r)) (set_entries ?new)"
    using entry by (auto simp: list_all_iff)
  have down: "rank lib directive d < rank lib directive k" if "(k, d) \<in> set (edge_list ?new)" for k d
    using edge_list_member [OF that] entry by blast
  then show "list_all (\<lambda>(k, d). rank lib directive d < rank lib directive k) (edge_list ?new)"
    by (auto simp: list_all_iff)
  show "acyclic (set (edge_list ?new))"
    using down by (rule acyclicI_order)
qed

theorem dependency_edges_witness:
  "directives widget = Some [''model'', ''sidecar''] \<and>
   ''model'' \<in> set [''model'', ''sidecar''] \<and>
   plurality sample_library (''list'' @ name_value widget) True \<noteq> [] \<and>
   distinct [''myFnLambdaDataSourceRole'', ''myFnLambdaDataSource'', ''InvokemyFnLambdaDataSource''] \<and>
   \<not> endsWith ''myFnLambdaDataSourceRole'' ''SidecarResolver'' \<and>
   \<not> endsWith ''myFnLambdaDataSource'' ''SidecarResolver'' \<and>
   \<not> endsWith ''InvokemyFnLambdaDataSource'' ''SidecarResolver'' \<and>
   edge_list (new_calls empty_context (snd (object sample_library widget myFn empty_context))) =
     [(''myFnLambdaDataSource'', ''myFnLambdaDataSourceRole''),
      (''InvokemyFnLambdaDataSource'', ''myFnLambdaDataSource''),
      (''MutationCreateWidgetSidecarResolver'', ''InvokemyFnLambdaDataSource''),
      (''MutationUpdateWidgetSidecarResolver'', ''InvokemyFnLambdaDataSource''),
      (''MutationDeleteWidgetSidecarResolver'', ''InvokemyFnLambdaDataSource''),
      (''QueryGetWidgetSidecarResolver'', ''InvokemyFnLambdaDataSource''),
      (''QueryListWidgetsSidecarResolver'', ''InvokemyFnLambdaDataSource'')] \<and>
   acyclic (set (edge_list
     (new_calls empty_context (snd (object sample_library widget myFn empty_context))))) \<and>
   map (rank sample_library myFn)
     [''myFnLambdaDataSourceRole'', ''myFnLambdaDataSource'', ''InvokemyFnLambdaDataSource'',
      ''MutationCreateWidgetSidecarResolver'', ''QueryListWidgetsSidecarResolver'']
     = [0, 1, 2, 3, 3]"
proof -
  have w: "directives widget = Some [''model'', ''sidecar'']"
    by (simp add: widget_def)
  have h: "distinct [''myFnLambdaDataSourceRole'', ''myFnLambdaDataSource'', ''InvokemyFnLambdaDataSource'']"
    "\<not> endsWith ''myFnLambdaDataSourceRole'' ''SidecarResolver''"
    "\<not> endsWith ''myFnLambdaDataSource'' ''SidecarResolver''"
    "\<not> endsWith ''InvokemyFnLambdaDataSource'' ''SidecarResolver''"
    by (simp_all add: endsWith_def)
  have r: "map (rank sample_library myFn)
     [''myFnLambdaDataSourceRole'', ''myFnLambdaDataSource'', ''InvokemyFnLambdaDataSource'',
      ''MutationCreateWidgetSidecarResolver'', ''QueryListWidgetsSidecarResolver'']
     = [0, 1, 2, 3, 3]"
    by (simp add: rank_def sample_inputs sample_keys)
  have m: "''model'' \<in> set [''model'', ''sidecar'']"
    by simp
  have pl: "plurality sample_library (''list'' @ name_value widget) True \<noteq> []"
    by (simp add: sample_inputs sample_keys)
  have H: "distinct [FunctionIAMRoleID sample_library (arg_name myFn) (arg_region myFn),
              FunctionDataSourceID sample_library (arg_name myFn) (arg_region myFn),
              FunctionAppSyncFunctionConfigurationID sample_library (arg_name myFn)
                (arg_region myFn)] \<and>
    \<not> endsWith (FunctionIAMRoleID sample_library (arg_name myFn) (arg_region myFn))
         ''SidecarResolver'' \<and>
    \<not> endsWith (FunctionDataSourceID sample_library (arg_name myFn) (arg_region myFn))
         ''SidecarResolver'' \<and>
    \<not> endsWith (FunctionAppSyncFunctionConfigurationID sample_library (arg_name myFn)
           (arg_region myFn)) ''SidecarResolver''"
    using h by (simp add: sample_inputs sample_keys)
  note run = dependency_edges
      [of widget "[''model'', ''sidecar'']" sample_library empty_context myFn]
  have e: "edge_list (new_calls empty_context (snd (object sample_library widget myFn empty_context))) =
     [(''myFnLambdaDataSource'', ''myFnLambdaDataSourceRole''),
      (''InvokemyFnLambdaDataSource'', ''myFnLambdaDataSource''),
      (''MutationCreateWidgetSidecarResolver'', ''InvokemyFnLambdaDataSource''),
      (''MutationUpdateWidgetSidecarResolver'', ''InvokemyFnLambdaDataSource''),
      (''MutationDeleteWidgetSidecarResolver'', ''InvokemyFnLambdaDataSource''),
      (''QueryGetWidgetSidecarResolver'', ''InvokemyFnLambdaDataSource''),
      (''QueryListWidgetsSidecarResolver'', ''InvokemyFnLambdaDataSource'')]"
    using run [THEN conjunct1, rule_format, OF conjI [OF w conjI [OF m pl]]]
    by (simp add: sample_inputs sample_keys upper_first)
  have a: "acyclic (set (edge_list
     (new_calls empty_context (snd (object sample_library widget myFn empty_context)))))"
    using run [THEN conjunct2, THEN conjunct2, rule_format, OF H] by blast
  show ?thesis
    by (intro conjI w m pl h e a r)
qed

end
